theory Spec2Isabelle
  imports
    Main
    "HOL-Library.Word"
    "HOL-Library.AList"
    "HOL-Library.Char_ord"
    "HOL-Library.List_Lexorder"
begin

section \<open>Data model of the group consumer (pkg/kgo/consume_group.go)\<close>

text \<open>
  Go's fixed-width integers are words; every comparison the source makes on them is a
  signed one and is written with \<open>sint\<close>. Go maps are association lists read with
  \<open>map_of\<close> and written with \<open>AList.update\<close> and \<open>AList.delete\<close>; a map that the source
  tests against \<open>nil\<close> is an \<open>option\<close> of such a list. Strings are byte lists, ordered
  bytewise as Go's \<open><\<close> orders them.
\<close>

type_synonym int16 = "16 word"
type_synonym int32 = "32 word"
type_synonym int64 = "64 word"

text \<open>\<open>map[string][]int32\<close>: topic to partitions.\<close>

type_synonym assignment = "(string \<times> int32 list) list"

record EpochOffset =
  Epoch :: int32
  Offset :: int64

text \<open>\<open>type uncommit struct\<close>; \<open>zero_uncommit\<close> is what a lookup of a missing key yields.\<close>

record uncommit =
  head :: EpochOffset
  committed :: EpochOffset

definition zero_uncommit :: uncommit where
  "zero_uncommit =
     \<lparr>head = \<lparr>Epoch = 0, Offset = 0\<rparr>, committed = \<lparr>Epoch = 0, Offset = 0\<rparr>\<rparr>"

text \<open>\<open>type uncommitted map[string]map[int32]uncommit\<close>.\<close>

type_synonym uncommitted = "(string \<times> (int32 \<times> uncommit) list) list"

text \<open>
  The kmsg messages, with the fields this file reads or writes. OffsetCommit and
  TxnOffsetCommit have topic and partition types with the same fields; one record
  stands for both families.
\<close>

record CommitRequestPartition =
  q_Partition :: int32
  q_Offset :: int64
  q_LeaderEpoch :: int32
  q_Metadata :: "string option"

record CommitRequestTopic =
  q_Topic :: string
  q_Partitions :: "CommitRequestPartition list"

record CommitResponsePartition =
  r_Partition :: int32
  r_ErrorCode :: int16

record CommitResponseTopic =
  r_Topic :: string
  r_Partitions :: "CommitResponsePartition list"

record OffsetCommitRequest =
  oc_Group :: string
  oc_Generation :: int32
  oc_MemberID :: string
  oc_InstanceID :: "string option"
  oc_Topics :: "CommitRequestTopic list"

record OffsetCommitResponse =
  ocr_Topics :: "CommitResponseTopic list"

record TxnOffsetCommitRequest =
  tc_TransactionalID :: string
  tc_Group :: string
  tc_ProducerID :: int64
  tc_ProducerEpoch :: int16
  tc_Topics :: "CommitRequestTopic list"

record TxnOffsetCommitResponse =
  tcr_Topics :: "CommitResponseTopic list"

text \<open>
  \<open>type groupConsumer struct\<close>. \<open>group_id\<close> is the field \<open>id\<close> and \<open>using_topics\<close> the
  field \<open>using\<close>. \<open>topics\<close> and \<open>reSeen\<close> are \<open>map[string]struct{}\<close>. \<open>commitCancel\<close> and
  \<open>commitDone\<close> hold the identity of the cancel function and of the channel, \<open>None\<close>
  for \<open>nil\<close>. \<open>rejoinCh\<close> is a channel of capacity one that carries no data: \<open>True\<close>
  when its slot is full. The callbacks are arguments of the functions that call them.
\<close>

record groupConsumer =
  group_id :: string
  topics :: "string list"
  cooperative :: bool
  leader :: bool
  using_topics :: "(string \<times> int) list"
  uncommitted :: "uncommitted option"
  commitCancel :: "nat option"
  commitDone :: "nat option"
  rejoinCh :: bool
  regexTopics :: bool
  reSeen :: "string set"
  memberID :: string
  instanceID :: "string option"
  generation :: int32
  lastAssigned :: "assignment option"
  nowAssigned :: assignment

section \<open>Applying a commit result: updateCommitted and updateCommittedTxn\<close>

text \<open>
  The inner loop \<open>for i := range respTopic.Partitions\<close> over one topic of the ledger.
  Both slices have the same length when the loop is entered.
\<close>

fun updateCommitted_partitions ::
  "(int32 \<times> uncommit) list \<Rightarrow> CommitRequestPartition list \<Rightarrow> CommitResponsePartition list
     \<Rightarrow> (int32 \<times> uncommit) list" where
  "updateCommitted_partitions topic (reqPart # reqParts) (respPart # respParts) =
     (case map_of topic (r_Partition respPart) of
        None \<Rightarrow> updateCommitted_partitions topic reqParts respParts
      | Some uncommit \<Rightarrow>
          if r_ErrorCode respPart \<noteq> 0 \<or> q_Partition reqPart \<noteq> r_Partition respPart
          then updateCommitted_partitions topic reqParts respParts
          else updateCommitted_partitions
                 (AList.update (r_Partition respPart)
                    (uncommit\<lparr>committed :=
                       \<lparr>Epoch = q_LeaderEpoch reqPart, Offset = q_Offset reqPart\<rparr>\<rparr>)
                    topic)
                 reqParts respParts)"
| "updateCommitted_partitions topic reqParts respParts = topic"

text \<open>
  \<open>sort.Slice\<close> by partition number and by topic name. \<open>sort.Slice\<close> is not stable;
  \<open>sort_key\<close> is, which matters only for slices that repeat a key.
\<close>

definition sort_reqParts :: "CommitRequestPartition list \<Rightarrow> CommitRequestPartition list" where
  "sort_reqParts ps = sort_key (\<lambda>p. sint (q_Partition p)) ps"

definition sort_respParts :: "CommitResponsePartition list \<Rightarrow> CommitResponsePartition list" where
  "sort_respParts ps = sort_key (\<lambda>p. sint (r_Partition p)) ps"

definition sort_reqTopics :: "CommitRequestTopic list \<Rightarrow> CommitRequestTopic list" where
  "sort_reqTopics ts = sort_key q_Topic ts"

definition sort_respTopics :: "CommitResponseTopic list \<Rightarrow> CommitResponseTopic list" where
  "sort_respTopics ts = sort_key r_Topic ts"

text \<open>
  The outer loop \<open>for i := range resp.Topics\<close>. It returns the ledger together with the
  request and response topics as the loop leaves them: the partitions of a topic that
  passes the three checks are sorted in place.
\<close>

fun updateCommitted_topics ::
  "uncommitted \<Rightarrow> CommitRequestTopic list \<Rightarrow> CommitResponseTopic list
     \<Rightarrow> uncommitted \<times> CommitRequestTopic list \<times> CommitResponseTopic list" where
  "updateCommitted_topics unc (reqTopic # reqTopics) (respTopic # respTopics) =
     (case map_of unc (r_Topic respTopic) of
        None \<Rightarrow>
          (case updateCommitted_topics unc reqTopics respTopics of
             (unc', reqs', resps') \<Rightarrow> (unc', reqTopic # reqs', respTopic # resps'))
      | Some topic \<Rightarrow>
          if q_Topic reqTopic \<noteq> r_Topic respTopic
             \<or> length (q_Partitions reqTopic) \<noteq> length (r_Partitions respTopic)
          then
            (case updateCommitted_topics unc reqTopics respTopics of
               (unc', reqs', resps') \<Rightarrow> (unc', reqTopic # reqs', respTopic # resps'))
          else
            (let reqParts = sort_reqParts (q_Partitions reqTopic);
                 respParts = sort_respParts (r_Partitions respTopic);
                 topic' = updateCommitted_partitions topic reqParts respParts
             in case updateCommitted_topics
                       (AList.update (r_Topic respTopic) topic' unc) reqTopics respTopics of
                  (unc', reqs', resps') \<Rightarrow>
                    (unc', reqTopic\<lparr>q_Partitions := reqParts\<rparr> # reqs',
                     respTopic\<lparr>r_Partitions := respParts\<rparr> # resps')))"
| "updateCommitted_topics unc reqTopics respTopics = (unc, reqTopics, respTopics)"

text \<open>
  \<open>updateCommitted\<close>: the group after the call and the request and response as the call
  leaves them (both are passed by pointer and sorted in place).
\<close>

definition updateCommitted ::
  "groupConsumer \<Rightarrow> OffsetCommitRequest \<Rightarrow> OffsetCommitResponse
     \<Rightarrow> groupConsumer \<times> OffsetCommitRequest \<times> OffsetCommitResponse" where
  "updateCommitted g req resp =
     (if oc_Generation req \<noteq> generation g then (g, req, resp)
      else case uncommitted g of
        None \<Rightarrow> (g, req, resp)
      | Some unc \<Rightarrow>
          if length (oc_Topics req) \<noteq> length (ocr_Topics resp) then (g, req, resp)
          else
            (case updateCommitted_topics unc
                    (sort_reqTopics (oc_Topics req)) (sort_respTopics (ocr_Topics resp)) of
               (unc', reqs', resps') \<Rightarrow>
                 (g\<lparr>uncommitted := Some unc'\<rparr>,
                  req\<lparr>oc_Topics := reqs'\<rparr>, resp\<lparr>ocr_Topics := resps'\<rparr>)))"

text \<open>\<open>updateCommittedTxn\<close>: the same without the generation check.\<close>

definition updateCommittedTxn ::
  "groupConsumer \<Rightarrow> TxnOffsetCommitRequest \<Rightarrow> TxnOffsetCommitResponse
     \<Rightarrow> groupConsumer \<times> TxnOffsetCommitRequest \<times> TxnOffsetCommitResponse" where
  "updateCommittedTxn g req resp =
     (case uncommitted g of
        None \<Rightarrow> (g, req, resp)
      | Some unc \<Rightarrow>
          if length (tc_Topics req) \<noteq> length (tcr_Topics resp) then (g, req, resp)
          else
            (case updateCommitted_topics unc
                    (sort_reqTopics (tc_Topics req)) (sort_respTopics (tcr_Topics resp)) of
               (unc', reqs', resps') \<Rightarrow>
                 (g\<lparr>uncommitted := Some unc'\<rparr>,
                  req\<lparr>tc_Topics := reqs'\<rparr>, resp\<lparr>tcr_Topics := resps'\<rparr>)))"

text \<open>
  The words of the specification for what a commit result acknowledges. With request
  and response sorted by topic, and the partitions of the topics at place \<open>i\<close> sorted
  by partition, partition \<open>p\<close> of topic \<open>t\<close> is acknowledged at places \<open>i\<close> and \<open>j\<close> when
  both topics at place \<open>i\<close> are \<open>t\<close> with as many partitions each, both partitions at
  place \<open>j\<close> are \<open>p\<close>, and the response's error code there is zero.
  \<open>commit_requested\<close> is the epoch and offset the request has at these places.
\<close>

definition commit_acked ::
  "CommitRequestTopic list \<Rightarrow> CommitResponseTopic list \<Rightarrow> string \<Rightarrow> int32 \<Rightarrow> nat \<Rightarrow> nat \<Rightarrow> bool"
  where
  "commit_acked reqTopics respTopics t p i j =
     (i < length reqTopics \<and> i < length respTopics \<and>
      (let reqTopic = sort_reqTopics reqTopics ! i;
           respTopic = sort_respTopics respTopics ! i;
           reqParts = sort_reqParts (q_Partitions reqTopic);
           respParts = sort_respParts (r_Partitions respTopic)
       in q_Topic reqTopic = t \<and> r_Topic respTopic = t
          \<and> length reqParts = length respParts \<and> j < length respParts
          \<and> q_Partition (reqParts ! j) = p \<and> r_Partition (respParts ! j) = p
          \<and> r_ErrorCode (respParts ! j) = 0))"

definition commit_requested :: "CommitRequestTopic list \<Rightarrow> nat \<Rightarrow> nat \<Rightarrow> EpochOffset" where
  "commit_requested reqTopics i j =
     (let reqPart = sort_reqParts (q_Partitions (sort_reqTopics reqTopics ! i)) ! j
      in \<lparr>Epoch = q_LeaderEpoch reqPart, Offset = q_Offset reqPart\<rparr>)"

text \<open>
  For the proofs: the pairs of request and response partitions that the two loops
  compare for topic \<open>t\<close>, in the order the loops reach them, and whether such a pair
  acknowledges partition \<open>p\<close>.
\<close>

definition commit_pairs ::
  "string \<Rightarrow> CommitRequestTopic list \<Rightarrow> CommitResponseTopic list
     \<Rightarrow> (CommitRequestPartition \<times> CommitResponsePartition) list" where
  "commit_pairs t reqTopics respTopics =
     concat (map (\<lambda>(reqTopic, respTopic).
                    if q_Topic reqTopic = t \<and> r_Topic respTopic = t
                       \<and> length (q_Partitions reqTopic) = length (r_Partitions respTopic)
                    then zip (sort_reqParts (q_Partitions reqTopic))
                             (sort_respParts (r_Partitions respTopic))
                    else [])
               (zip reqTopics respTopics))"

definition commit_hit :: "int32 \<Rightarrow> CommitRequestPartition \<times> CommitResponsePartition \<Rightarrow> bool" where
  "commit_hit p qr =
     (r_Partition (snd qr) = p \<and> q_Partition (fst qr) = p \<and> r_ErrorCode (snd qr) = 0)"

text \<open>
  What a list of such pairs, taken in order, leaves of a ledger entry for partition
  \<open>p\<close>: the last pair that acknowledges \<open>p\<close> decides.
\<close>

definition commit_apply ::
  "int32 \<Rightarrow> (CommitRequestPartition \<times> CommitResponsePartition) list \<Rightarrow> uncommit \<Rightarrow> uncommit"
  where
  "commit_apply p pairs u =
     (case find (commit_hit p) (rev pairs) of
        None \<Rightarrow> u
      | Some qr \<Rightarrow>
          u\<lparr>committed := \<lparr>Epoch = q_LeaderEpoch (fst qr), Offset = q_Offset (fst qr)\<rparr>\<rparr>)"

text \<open>
  The three checks of lines 1048 to 1050 on the topics at one place: the ledger has the
  response's topic, the names agree and the partition counts agree.
\<close>

definition commit_checked :: "uncommitted \<Rightarrow> CommitRequestTopic \<Rightarrow> CommitResponseTopic \<Rightarrow> bool" where
  "commit_checked unc reqTopic respTopic =
     (map_of unc (r_Topic respTopic) \<noteq> None
      \<and> q_Topic reqTopic = r_Topic respTopic
      \<and> length (q_Partitions reqTopic) = length (r_Partitions respTopic))"

text \<open>Reading a map of maps at a topic and a partition.\<close>

definition lookup2 :: "('a \<times> ('b \<times> 'c) list) list \<Rightarrow> 'a \<Rightarrow> 'b \<Rightarrow> 'c option" where
  "lookup2 m t p = (case map_of m t of None \<Rightarrow> None | Some inner \<Rightarrow> map_of inner p)"

section \<open>Errors, panics and the trace of outside effects\<close>

text \<open>
  An \<open>error\<close> value is either one of package kerr, named by its Kafka code, or any
  other (the transport's, or one made with \<open>errors.New\<close>). \<open>kerr.ErrorForCode\<close> and
  \<open>kerr.IsRetriable\<close> are arguments of the functions that call them.
\<close>

datatype error = KafkaError int16 | OtherError string

datatype panic = NilDereference | NilInterfaceConversion

text \<open>\<open>kgo.Offset\<close>, with the two fields this file sets; \<open>Offset{}\<close> is \<open>zero_Offset\<close>.\<close>

record Offset =
  request :: int64
  epoch :: int32

definition zero_Offset :: Offset where
  "zero_Offset = \<lparr>request = 0, epoch = 0\<rparr>"

type_synonym offsets = "(string \<times> (int32 \<times> Offset) list) list"

datatype assignHow = assignInvalidateAll | assignInvalidateMatching | assignWithoutInvalidating

datatype revokeStage = revokeLastSession | revokeThisSession

record LeaveGroupRequestMember =
  lgm_MemberID :: string

record LeaveGroupRequest =
  lg_Group :: string
  lg_MemberID :: string
  lg_Members :: "LeaveGroupRequestMember list"

record OffsetFetchRequestTopic =
  ofq_Topic :: string
  ofq_Partitions :: "int32 list"

record OffsetFetchRequest =
  ofq_Group :: string
  ofq_Topics :: "OffsetFetchRequestTopic list"

record OffsetFetchResponsePartition =
  ofp_Partition :: int32
  ofp_Offset :: int64
  ofp_LeaderEpoch :: int32
  ofp_ErrorCode :: int16

record OffsetFetchResponseTopic =
  oft_Topic :: string
  oft_Partitions :: "OffsetFetchResponsePartition list"

record OffsetFetchResponse =
  ofr_Version :: int16
  ofr_ErrorCode :: int16
  ofr_Topics :: "OffsetFetchResponseTopic list"

text \<open>
  What a function does to the world outside the group's own fields, in the order it
  does it: requests sent, callbacks called, calls into the consumer, goroutines started,
  channels waited for and closed. The number in the commit events is the identity of
  the context, cancel function and done channel that one call of \<open>commit\<close> creates.
\<close>

datatype event =
    CancelGroup
  | RequestLeaveGroup LeaveGroupRequest
  | MaybeAssignPartitions offsets assignHow
  | OnRevoked assignment
  | OnDone OffsetCommitRequest "OffsetCommitResponse option" "error option"
  | OnDoneTxn TxnOffsetCommitRequest "TxnOffsetCommitResponse option" "error option"
  | CommitCancel nat
  | SpawnCtxWatcher nat
  | SpawnCommit nat
  | AwaitDone nat
  | RequestOffsetCommit nat OffsetCommitRequest
  | RequestTxnOffsetCommit nat TxnOffsetCommitRequest
  | CloseDone nat
  | RequestOffsetFetch OffsetFetchRequest
  | ResetAndLoadOffsets
  | MatchString string string
  | SpawnManage

fun is_OnDone :: "event \<Rightarrow> bool" where
  "is_OnDone (OnDone _ _ _) = True"
| "is_OnDone (OnDoneTxn _ _ _) = True"
| "is_OnDone _ = False"

fun is_Request :: "event \<Rightarrow> bool" where
  "is_Request (RequestLeaveGroup _) = True"
| "is_Request (RequestOffsetCommit _ _) = True"
| "is_Request (RequestTxnOffsetCommit _ _) = True"
| "is_Request (RequestOffsetFetch _) = True"
| "is_Request _ = False"

fun is_SpawnCommit :: "event \<Rightarrow> bool" where
  "is_SpawnCommit (SpawnCommit _) = True"
| "is_SpawnCommit _ = False"

fun is_LeaveGroup :: "event \<Rightarrow> bool" where
  "is_LeaveGroup (RequestLeaveGroup _) = True"
| "is_LeaveGroup _ = False"

fun is_MaybeAssign :: "event \<Rightarrow> bool" where
  "is_MaybeAssign (MaybeAssignPartitions _ _) = True"
| "is_MaybeAssign _ = False"


text \<open>Reading a slice-valued map at a key: \<open>nil\<close>, the empty slice, when the key is missing.\<close>

definition get_slice :: "('k \<times> 'v list) list \<Rightarrow> 'k \<Rightarrow> 'v list" where
  "get_slice m k = (case map_of m k of None \<Rightarrow> [] | Some v \<Rightarrow> v)"

text \<open>\<open>rejoin\<close>: a send on \<open>rejoinCh\<close> that does not block; the slot is full afterwards.\<close>

definition rejoin :: "groupConsumer \<Rightarrow> groupConsumer" where
  "rejoin g = g\<lparr>rejoinCh := True\<rparr>"

section \<open>leave\<close>

definition leave :: "groupConsumer \<Rightarrow> event list" where
  "leave g =
     CancelGroup #
     (if instanceID g = None
      then [RequestLeaveGroup
              \<lparr>lg_Group = group_id g, lg_MemberID = memberID g,
               lg_Members = [\<lparr>lgm_MemberID = memberID g\<rparr>]\<rparr>]
      else [])"

section \<open>diffAssigned\<close>

text \<open>
  \<open>lasts\<close> is a \<open>map[int32]struct{}\<close>, held as a list without repetition. The loop over
  \<open>nowPartitions\<close> of a topic that both assignments have:
\<close>

fun diffAssigned_now ::
  "string \<Rightarrow> int32 list \<Rightarrow> int32 list \<Rightarrow> assignment \<Rightarrow> int32 list \<times> assignment" where
  "diffAssigned_now topic [] lasts added = (lasts, added)"
| "diffAssigned_now topic (nowPartition # nowPartitions) lasts added =
     (if nowPartition \<notin> set lasts
      then diffAssigned_now topic nowPartitions lasts
             (AList.update topic (get_slice added topic @ [nowPartition]) added)
      else diffAssigned_now topic nowPartitions (removeAll nowPartition lasts) added)"

text \<open>
  \<open>for last := range lasts\<close> (the variable is \<open>lastPartition\<close> here): what remains is lost, and every key visited is deleted,
  which leaves \<open>lasts\<close> empty for the next topic. Go visits the keys in an order of its
  own; the model takes the order of the list.
\<close>

fun diffAssigned_remaining ::
  "string \<Rightarrow> int32 list \<Rightarrow> assignment \<Rightarrow> int32 list \<times> assignment" where
  "diffAssigned_remaining topic [] lost = ([], lost)"
| "diffAssigned_remaining topic (lastPartition # lasts) lost =
     diffAssigned_remaining topic lasts
       (AList.update topic (get_slice lost topic @ [lastPartition]) lost)"

text \<open>The first loop, over the entries of \<open>lastAssigned\<close>.\<close>

fun diffAssigned_last ::
  "assignment \<Rightarrow> assignment \<Rightarrow> int32 list \<Rightarrow> assignment \<times> assignment
     \<Rightarrow> assignment \<times> assignment" where
  "diffAssigned_last now [] lasts (added, lost) = (added, lost)"
| "diffAssigned_last now ((topic, lastPartitions) # rest) lasts (added, lost) =
     (case map_of now topic of
        None \<Rightarrow> diffAssigned_last now rest lasts (added, AList.update topic lastPartitions lost)
      | Some nowPartitions \<Rightarrow>
          (case diffAssigned_now topic nowPartitions
                  (fold List.insert lastPartitions lasts) added of
             (lasts', added') \<Rightarrow>
               (case diffAssigned_remaining topic lasts' lost of
                  (lasts'', lost') \<Rightarrow> diffAssigned_last now rest lasts'' (added', lost'))))"

text \<open>The second loop, over the entries of \<open>nowAssigned\<close>.\<close>

fun diffAssigned_new :: "assignment \<Rightarrow> assignment \<Rightarrow> assignment \<Rightarrow> assignment" where
  "diffAssigned_new lastA [] added = added"
| "diffAssigned_new lastA ((topic, nowPartitions) # rest) added =
     (if map_of lastA topic = None
      then diffAssigned_new lastA rest (AList.update topic nowPartitions added)
      else diffAssigned_new lastA rest added)"

definition diffAssigned :: "groupConsumer \<Rightarrow> assignment \<times> assignment" where
  "diffAssigned g =
     (case lastAssigned g of
        None \<Rightarrow> (nowAssigned g, [])
      | Some lastA \<Rightarrow>
          (case diffAssigned_last (nowAssigned g) lastA [] ([], []) of
             (added, lost) \<Rightarrow> (diffAssigned_new lastA (nowAssigned g) added, lost)))"

section \<open>revoke\<close>

definition revoke_lostOffsets :: "assignment \<Rightarrow> offsets" where
  "revoke_lostOffsets lost =
     fold (\<lambda>(lostTopic, lostPartitions) lostOffsets.
             AList.update lostTopic
               (fold (\<lambda>lostPartition m. AList.update lostPartition zero_Offset m)
                  lostPartitions [])
               lostOffsets)
       lost []"

text \<open>The loop that deletes what was lost from the ledger.\<close>

fun revoke_prune :: "assignment \<Rightarrow> uncommitted \<Rightarrow> uncommitted" where
  "revoke_prune [] unc = unc"
| "revoke_prune ((lostTopic, lostPartitions) # rest) unc =
     (case map_of unc lostTopic of
        None \<Rightarrow> revoke_prune rest unc
      | Some uncommittedPartitions \<Rightarrow>
          (let remaining = fold AList.delete lostPartitions uncommittedPartitions
           in revoke_prune rest
                (if length remaining = 0 then AList.delete lostTopic unc
                 else AList.update lostTopic remaining unc)))"

text \<open>
  \<open>revoke\<close>. \<open>onRevoked\<close> is the callback, \<open>None\<close> for \<open>nil\<close>; it is given the group and
  what is revoked and returns the group as it leaves it (the default one commits).
  The call of \<open>maybeAssignPartitions\<close> is passed \<open>&g.seq\<close>, which is not among the
  fields modelled.
\<close>

definition revoke ::
  "(groupConsumer \<Rightarrow> assignment \<Rightarrow> groupConsumer) option \<Rightarrow> groupConsumer \<Rightarrow> revokeStage
     \<Rightarrow> assignment \<Rightarrow> groupConsumer \<times> event list" where
  "revoke onRevoked g stage lost =
     (if \<not> cooperative g then
        (case onRevoked of
           None \<Rightarrow> (g\<lparr>nowAssigned := [], uncommitted := None\<rparr>, [])
         | Some f \<Rightarrow>
             ((f g (nowAssigned g))\<lparr>nowAssigned := [], uncommitted := None\<rparr>,
              [OnRevoked (nowAssigned g)]))
      else if length lost = 0 then (g, [])
      else
        (let invalidate = [MaybeAssignPartitions (revoke_lostOffsets lost) assignInvalidateMatching];
             (g1, called) =
               (case onRevoked of
                  None \<Rightarrow> (g, [])
                | Some f \<Rightarrow> (f g lost, [OnRevoked lost]))
         in case uncommitted g1 of
              None \<Rightarrow> (rejoin g1, invalidate @ called)
            | Some unc \<Rightarrow>
                (let unc' = revoke_prune lost unc
                 in (rejoin (g1\<lparr>uncommitted := (if length unc' = 0 then None else Some unc')\<rparr>),
                     invalidate @ called))))"

section \<open>updateUncommitted\<close>

text \<open>
  \<open>kgo.Fetches\<close>, with the fields read here.
\<close>

record Record =
  rec_Offset :: int64
  rec_LeaderEpoch :: int32

record FetchPartition =
  fp_Partition :: int32
  fp_Records :: "Record list"

record FetchTopic =
  ft_Topic :: string
  ft_Partitions :: "FetchPartition list"

record Fetch =
  f_Topics :: "FetchTopic list"

text \<open>
  The body of the innermost loop. The state is \<open>g.uncommitted\<close> and the local
  \<open>topicOffsets\<close>. \<open>topicOffsets\<close> is \<open>nil\<close> or one of the inner maps of the ledger, the
  one it was read from: it is held as the topic key of that inner map, and a write
  through it is a write to that entry of the ledger.
\<close>

definition updateUncommitted_partition ::
  "string \<Rightarrow> FetchPartition \<Rightarrow> uncommitted option \<times> string option
     \<Rightarrow> uncommitted option \<times> string option" where
  "updateUncommitted_partition topic fetchPartition st =
     (case st of (unc, topicOffsets) \<Rightarrow>
        if length (fp_Records fetchPartition) = 0 then st
        else
          (let final = last (fp_Records fetchPartition);
               ledger = (case unc of None \<Rightarrow> [] | Some u \<Rightarrow> u);
               (ledger1, key) =
                 (case topicOffsets of
                    Some k \<Rightarrow> (ledger, k)
                  | None \<Rightarrow>
                      (if map_of ledger topic = None
                       then (AList.update topic [] ledger, topic)
                       else (ledger, topic)));
               inner = (case map_of ledger1 key of None \<Rightarrow> [] | Some m \<Rightarrow> m);
               newOffset = rec_Offset final + 1;
               newHead = \<lparr>Epoch = rec_LeaderEpoch final, Offset = newOffset\<rparr>
           in case map_of inner (fp_Partition fetchPartition) of
                Some uncommit \<Rightarrow>
                  if sint (Offset (head uncommit)) > sint newOffset
                  then (Some ledger1, Some key)
                  else (Some (AList.update key
                                (AList.update (fp_Partition fetchPartition)
                                   (uncommit\<lparr>head := newHead\<rparr>) inner) ledger1),
                        Some key)
              | None \<Rightarrow>
                  (Some (AList.update key
                           (AList.update (fp_Partition fetchPartition)
                              (zero_uncommit\<lparr>head := newHead\<rparr>) inner) ledger1),
                   Some key)))"

text \<open>
  One fetch: \<open>var topicOffsets\<close> is declared once for the fetch, before the loop over
  its topics, and so starts as \<open>nil\<close> per fetch, not per topic.
\<close>

definition updateUncommitted_fetch :: "Fetch \<Rightarrow> uncommitted option \<Rightarrow> uncommitted option" where
  "updateUncommitted_fetch fetch unc =
     fst (fold (\<lambda>topic st.
                  fold (\<lambda>fetchPartition st'. updateUncommitted_partition (ft_Topic topic) fetchPartition st')
                    (ft_Partitions topic) st)
            (f_Topics fetch) (unc, None))"

definition updateUncommitted :: "groupConsumer \<Rightarrow> Fetch list \<Rightarrow> groupConsumer" where
  "updateUncommitted g fetches =
     g\<lparr>uncommitted := fold updateUncommitted_fetch fetches (uncommitted g)\<rparr>"

section \<open>commit and commitTxn\<close>

text \<open>
  The argument \<open>uncommitted\<close> of \<open>commit\<close>, a \<open>map[string]map[int32]EpochOffset\<close>.
\<close>

type_synonym commit_offsets = "(string \<times> (int32 \<times> EpochOffset) list) list"

text \<open>\<open>new(kmsg.OffsetCommitRequest)\<close> and the other three: every field zero.\<close>

definition new_OffsetCommitRequest :: OffsetCommitRequest where
  "new_OffsetCommitRequest =
     \<lparr>oc_Group = [], oc_Generation = 0, oc_MemberID = [], oc_InstanceID = None, oc_Topics = []\<rparr>"

definition new_OffsetCommitResponse :: OffsetCommitResponse where
  "new_OffsetCommitResponse = \<lparr>ocr_Topics = []\<rparr>"

definition new_TxnOffsetCommitRequest :: TxnOffsetCommitRequest where
  "new_TxnOffsetCommitRequest =
     \<lparr>tc_TransactionalID = [], tc_Group = [], tc_ProducerID = 0, tc_ProducerEpoch = 0,
      tc_Topics = []\<rparr>"

definition new_TxnOffsetCommitResponse :: TxnOffsetCommitResponse where
  "new_TxnOffsetCommitResponse = \<lparr>tcr_Topics = []\<rparr>"

text \<open>
  What the goroutine started by \<open>commit\<close> has captured: \<open>priorDone\<close>, the identity of
  its own context, cancel function and done channel, \<open>memberID\<close>, the request built so
  far and the offsets to commit.
\<close>

record commitTask =
  ct_priorDone :: "nat option"
  ct_own :: nat
  ct_memberID :: string
  ct_req :: OffsetCommitRequest
  ct_uncommitted :: commit_offsets

record commitTxnTask =
  ctt_priorDone :: "nat option"
  ctt_own :: nat
  ctt_memberID :: string
  ctt_req :: TxnOffsetCommitRequest
  ctt_uncommitted :: commit_offsets

text \<open>
  \<open>commit\<close> up to the point where it returns. \<open>own\<close> is the identity of what
  \<open>context.WithCancel\<close> and \<open>make(chan struct{})\<close> create in this call;
  \<open>ctxCancelable\<close> says that \<open>ctx.Done() != nil\<close>. \<open>OnDone\<close> is a call of \<open>onDone\<close>, or
  of the function that does nothing and replaces a \<open>nil\<close> one.
\<close>

definition commit ::
  "groupConsumer \<Rightarrow> nat \<Rightarrow> bool \<Rightarrow> commit_offsets
     \<Rightarrow> groupConsumer \<times> event list \<times> commitTask option" where
  "commit g own ctxCancelable uncommittedArg =
     (if length uncommittedArg = 0
      then (g, [OnDone new_OffsetCommitRequest (Some new_OffsetCommitResponse) None], None)
      else
        (let cancelPrior = (case commitCancel g of None \<Rightarrow> [] | Some c \<Rightarrow> [CommitCancel c]);
             priorDone = commitDone g;
             g' = g\<lparr>commitCancel := Some own, commitDone := Some own\<rparr>;
             req = \<lparr>oc_Group = group_id g, oc_Generation = generation g,
                    oc_MemberID = memberID g, oc_InstanceID = instanceID g, oc_Topics = []\<rparr>
         in (g',
             cancelPrior @ (if ctxCancelable then [SpawnCtxWatcher own] else [])
               @ [SpawnCommit own],
             Some \<lparr>ct_priorDone = priorDone, ct_own = own, ct_memberID = memberID g,
                   ct_req = req, ct_uncommitted = uncommittedArg\<rparr>)))"

text \<open>The two nested loops that fill \<open>req.Topics\<close>; \<open>Metadata\<close> is \<open>&memberID\<close>.\<close>

definition commit_topics :: "string \<Rightarrow> commit_offsets \<Rightarrow> CommitRequestTopic list" where
  "commit_topics memberID' uncommittedArg =
     map (\<lambda>(topic, parts).
            \<lparr>q_Topic = topic,
             q_Partitions =
               map (\<lambda>(part, eo).
                      \<lparr>q_Partition = part, q_Offset = Offset eo, q_LeaderEpoch = Epoch eo,
                       q_Metadata = Some memberID'\<rparr>)
                 parts\<rparr>)
       uncommittedArg"

text \<open>
  The goroutine of \<open>commit\<close>, run to its end. \<open>g\<close> is the group when \<open>priorDone\<close> has been
  received from; \<open>outcome\<close> is what \<open>Request\<close> returns, an error or the response. When
  no request is sent, \<open>kresp\<close> is a nil interface and its conversion panics. The two
  deferred calls close the trace.
\<close>

definition commit_run ::
  "groupConsumer \<Rightarrow> commitTask \<Rightarrow> error + OffsetCommitResponse
     \<Rightarrow> panic + groupConsumer \<times> event list" where
  "commit_run g task outcome =
     (let await = (case ct_priorDone task of None \<Rightarrow> [] | Some d \<Rightarrow> [AwaitDone d]);
          req = (ct_req task)\<lparr>oc_Topics := commit_topics (ct_memberID task) (ct_uncommitted task)\<rparr>;
          deferred = [CommitCancel (ct_own task), CloseDone (ct_own task)]
      in if length (oc_Topics req) > 0 then
           (case outcome of
              Inl err \<Rightarrow>
                Inr (g, await @ [RequestOffsetCommit (ct_own task) req,
                                 OnDone req None (Some err)] @ deferred)
            | Inr resp \<Rightarrow>
                (case updateCommitted g req resp of
                   (g', req', resp') \<Rightarrow>
                     Inr (g', await @ [RequestOffsetCommit (ct_own task) req,
                                       OnDone req' (Some resp') None] @ deferred)))
         else Inl NilInterfaceConversion)"

text \<open>
  \<open>commitTxn\<close>. \<open>txnID\<close> is \<open>g.cl.cfg.txnID\<close>, a pointer the function dereferences;
  \<open>producerID\<close> and \<open>producerEpoch\<close> are \<open>g.cl.producer.id\<close> and \<open>.epoch\<close>.
\<close>

definition commitTxn ::
  "string option \<Rightarrow> int64 \<Rightarrow> int16 \<Rightarrow> groupConsumer \<Rightarrow> nat \<Rightarrow> bool \<Rightarrow> commit_offsets
     \<Rightarrow> panic + groupConsumer \<times> event list \<times> commitTxnTask option" where
  "commitTxn txnID producerID producerEpoch g own ctxCancelable uncommittedArg =
     (if length uncommittedArg = 0
      then Inr (g, [OnDoneTxn new_TxnOffsetCommitRequest (Some new_TxnOffsetCommitResponse) None],
                None)
      else
        (case txnID of
           None \<Rightarrow> Inl NilDereference
         | Some tid \<Rightarrow>
             (let cancelPrior =
                    (case commitCancel g of None \<Rightarrow> [] | Some c \<Rightarrow> [CommitCancel c]);
                  priorDone = commitDone g;
                  g' = g\<lparr>commitCancel := Some own, commitDone := Some own\<rparr>;
                  req = \<lparr>tc_TransactionalID = tid, tc_Group = group_id g,
                         tc_ProducerID = producerID, tc_ProducerEpoch = producerEpoch,
                         tc_Topics = []\<rparr>
              in Inr (g',
                      cancelPrior @ (if ctxCancelable then [SpawnCtxWatcher own] else [])
                        @ [SpawnCommit own],
                      Some \<lparr>ctt_priorDone = priorDone, ctt_own = own,
                            ctt_memberID = memberID g, ctt_req = req,
                            ctt_uncommitted = uncommittedArg\<rparr>))))"

definition commitTxn_run ::
  "groupConsumer \<Rightarrow> commitTxnTask \<Rightarrow> error + TxnOffsetCommitResponse
     \<Rightarrow> panic + groupConsumer \<times> event list" where
  "commitTxn_run g task outcome =
     (let await = (case ctt_priorDone task of None \<Rightarrow> [] | Some d \<Rightarrow> [AwaitDone d]);
          req = (ctt_req task)\<lparr>tc_Topics := commit_topics (ctt_memberID task) (ctt_uncommitted task)\<rparr>;
          deferred = [CommitCancel (ctt_own task), CloseDone (ctt_own task)]
      in if length (tc_Topics req) > 0 then
           (case outcome of
              Inl err \<Rightarrow>
                Inr (g, await @ [RequestTxnOffsetCommit (ctt_own task) req,
                                 OnDoneTxn req None (Some err)] @ deferred)
            | Inr resp \<Rightarrow>
                (case updateCommittedTxn g req resp of
                   (g', req', resp') \<Rightarrow>
                     Inr (g', await @ [RequestTxnOffsetCommit (ctt_own task) req,
                                       OnDoneTxn req' (Some resp') None] @ deferred)))
         else Inl NilInterfaceConversion)"

section \<open>fetchOffsets\<close>

text \<open>Lines 829 to 832: where the error code of the response is read from.\<close>

definition fetchOffsets_errCode :: "OffsetFetchResponse \<Rightarrow> int16" where
  "fetchOffsets_errCode resp =
     (if sint (ofr_Version resp) < 2 \<and> length (ofr_Topics resp) > 0
         \<and> length (oft_Partitions (hd (ofr_Topics resp))) > 0
      then ofp_ErrorCode (hd (oft_Partitions (hd (ofr_Topics resp))))
      else ofr_ErrorCode resp)"

text \<open>Lines 845 to 854: the offset to start one partition from.\<close>

definition fetchOffsets_offset :: "Offset \<Rightarrow> int16 \<Rightarrow> OffsetFetchResponsePartition \<Rightarrow> Offset" where
  "fetchOffsets_offset resetOffset version rPartition =
     (let offset = \<lparr>request = ofp_Offset rPartition, epoch = - 1\<rparr>;
          offset' = (if 5 \<le> sint version
                     then offset\<lparr>epoch := ofp_LeaderEpoch rPartition\<rparr> else offset)
      in if ofp_Offset rPartition = - 1 then resetOffset else offset')"

text \<open>
  The loops over the topics and partitions of the response. \<open>Inl e\<close> is the \<open>return\<close>
  inside the loop, with the value returned, which is whatever \<open>kerr.ErrorForCode\<close>
  gives.
\<close>

fun fetchOffsets_partitions ::
  "(int16 \<Rightarrow> error option) \<Rightarrow> Offset \<Rightarrow> int16 \<Rightarrow> (int32 \<times> Offset) list
     \<Rightarrow> OffsetFetchResponsePartition list \<Rightarrow> error option + (int32 \<times> Offset) list" where
  "fetchOffsets_partitions errorForCode resetOffset version topicOffsets [] = Inr topicOffsets"
| "fetchOffsets_partitions errorForCode resetOffset version topicOffsets (rPartition # rest) =
     (if ofp_ErrorCode rPartition \<noteq> 0 then Inl (errorForCode (ofp_ErrorCode rPartition))
      else fetchOffsets_partitions errorForCode resetOffset version
             (AList.update (ofp_Partition rPartition)
                (fetchOffsets_offset resetOffset version rPartition) topicOffsets)
             rest)"

fun fetchOffsets_topics ::
  "(int16 \<Rightarrow> error option) \<Rightarrow> Offset \<Rightarrow> int16 \<Rightarrow> offsets
     \<Rightarrow> OffsetFetchResponseTopic list \<Rightarrow> error option + offsets" where
  "fetchOffsets_topics errorForCode resetOffset version offs [] = Inr offs"
| "fetchOffsets_topics errorForCode resetOffset version offs (rTopic # rest) =
     (case fetchOffsets_partitions errorForCode resetOffset version [] (oft_Partitions rTopic) of
        Inl e \<Rightarrow> Inl e
      | Inr topicOffsets \<Rightarrow>
          fetchOffsets_topics errorForCode resetOffset version
            (AList.update (oft_Topic rTopic) topicOffsets offs) rest)"

text \<open>
  Lines 815 to 823 build the request. Then
  \<open>fetchOffsets\<close>: the value returned (\<open>None\<close> is \<open>nil\<close>) and the trace. \<open>outcome\<close> is what
  \<open>Request\<close> returns and \<open>assigned\<close> what \<open>maybeAssignPartitions\<close> returns;
  \<open>resetOffset\<close> is \<open>g.cl.cfg.resetOffset\<close>.
\<close>

definition fetchOffsets_request :: "groupConsumer \<Rightarrow> assignment \<Rightarrow> OffsetFetchRequest" where
  "fetchOffsets_request g newAssigned =
     \<lparr>ofq_Group = group_id g,
      ofq_Topics = map (\<lambda>(topic, parts). \<lparr>ofq_Topic = topic, ofq_Partitions = parts\<rparr>)
                     newAssigned\<rparr>"

definition fetchOffsets ::
  "(int16 \<Rightarrow> error option) \<Rightarrow> (error \<Rightarrow> bool) \<Rightarrow> Offset \<Rightarrow> groupConsumer \<Rightarrow> assignment
     \<Rightarrow> error + OffsetFetchResponse \<Rightarrow> bool \<Rightarrow> error option \<times> event list" where
  "fetchOffsets errorForCode isRetriable resetOffset g newAssigned outcome assigned =
     (let req = fetchOffsets_request g newAssigned
      in case outcome of
           Inl err \<Rightarrow> (Some err, [RequestOffsetFetch req])
         | Inr resp \<Rightarrow>
             (let err = errorForCode (fetchOffsets_errCode resp)
              in if (case err of None \<Rightarrow> False | Some e \<Rightarrow> \<not> isRetriable e)
                 then (err, [RequestOffsetFetch req])
                 else
                   (case fetchOffsets_topics errorForCode resetOffset (ofr_Version resp) []
                           (ofr_Topics resp) of
                      Inl e \<Rightarrow> (e, [RequestOffsetFetch req])
                    | Inr offs \<Rightarrow>
                        (let assignHow = (if cooperative g then assignWithoutInvalidating
                                          else assignInvalidateAll)
                         in if \<not> assigned
                            then (Some (OtherError ''stale group''),
                                  [RequestOffsetFetch req, MaybeAssignPartitions offs assignHow])
                            else (None,
                                  [RequestOffsetFetch req, MaybeAssignPartitions offs assignHow,
                                   ResetAndLoadOffsets])))))"

section \<open>findNewAssignments\<close>









section \<open>Concrete inputs\<close>

text \<open>
  A cooperative member \<open>m1\<close> of group \<open>grp\<close> at generation 5, owning partition 0 of
  topic \<open>t\<close>, consumed up to offset 9 and committed up to 5.
\<close>

definition ex_group :: groupConsumer where
  "ex_group =
     \<lparr>group_id = ''grp'', topics = [''t''], cooperative = True, leader = False,
      using_topics = [],
      uncommitted = Some [(''t'', [(0, \<lparr>head = \<lparr>Epoch = 1, Offset = 10\<rparr>,
                                         committed = \<lparr>Epoch = 1, Offset = 5\<rparr>\<rparr>)])],
      commitCancel = None, commitDone = None, rejoinCh = False, regexTopics = False,
      reSeen = {}, memberID = ''m1'', instanceID = None, generation = 5,
      lastAssigned = None, nowAssigned = [(''t'', [0])]\<rparr>"

text \<open>A commit of offset 10 sent at generation 4, and its response without errors.\<close>

definition ex_req :: OffsetCommitRequest where
  "ex_req =
     \<lparr>oc_Group = ''grp'', oc_Generation = 4, oc_MemberID = ''m1'', oc_InstanceID = None,
      oc_Topics = [\<lparr>q_Topic = ''t'',
                    q_Partitions = [\<lparr>q_Partition = 0, q_Offset = 10, q_LeaderEpoch = 1,
                                     q_Metadata = Some ''m1''\<rparr>]\<rparr>]\<rparr>"

definition ex_resp :: OffsetCommitResponse where
  "ex_resp = \<lparr>ocr_Topics = [\<lparr>r_Topic = ''t'',
                              r_Partitions = [\<lparr>r_Partition = 0, r_ErrorCode = 0\<rparr>]\<rparr>]\<rparr>"

text \<open>
  One fetch with records of two topics: offset 5 of partition 0 of \<open>a\<close> and offset 9 of
  partition 0 of \<open>b\<close>.
\<close>

definition ex_fetch :: Fetch where
  "ex_fetch =
     \<lparr>f_Topics =
        [\<lparr>ft_Topic = ''a'',
          ft_Partitions = [\<lparr>fp_Partition = 0,
                            fp_Records = [\<lparr>rec_Offset = 5, rec_LeaderEpoch = 1\<rparr>]\<rparr>]\<rparr>,
         \<lparr>ft_Topic = ''b'',
          ft_Partitions = [\<lparr>fp_Partition = 0,
                            fp_Records = [\<lparr>rec_Offset = 9, rec_LeaderEpoch = 1\<rparr>]\<rparr>]\<rparr>]\<rparr>"

text \<open>
  The member after a rebalance: it had partitions 0, 1, 2 of \<open>t\<close> and partition 0 of
  \<open>u\<close>, and now has partitions 0, 2, 3 of \<open>t\<close> and partition 5 of \<open>v\<close>.
\<close>

definition ex_rebalanced :: groupConsumer where
  "ex_rebalanced =
     ex_group\<lparr>lastAssigned := Some [(''t'', [0, 1, 2]), (''u'', [0])],
              nowAssigned := [(''t'', [0, 2, 3]), (''v'', [5])]\<rparr>"

text \<open>
  \<open>kerr.ErrorForCode\<close> as far as the examples need it, with code 14
  (COORDINATOR_LOAD_IN_PROGRESS) the one retriable error; a reset offset; and two
  OffsetFetch responses. The first is of version 5, with the retriable code 14 at the
  top, and has partition 0 of \<open>t\<close> without a stored offset and partition 1 at offset
  42 of epoch 3. The second is of version 1 and reports code 3 on its first partition.
\<close>

definition ex_errorForCode :: "int16 \<Rightarrow> error option" where
  "ex_errorForCode c = (if c = 0 then None else Some (KafkaError c))"

definition ex_isRetriable :: "error \<Rightarrow> bool" where
  "ex_isRetriable e = (e = KafkaError 14)"

definition ex_resetOffset :: Offset where
  "ex_resetOffset = \<lparr>request = - 2, epoch = - 1\<rparr>"

definition ex_fetched :: OffsetFetchResponse where
  "ex_fetched =
     \<lparr>ofr_Version = 5, ofr_ErrorCode = 14,
      ofr_Topics =
        [\<lparr>oft_Topic = ''t'',
          oft_Partitions =
            [\<lparr>ofp_Partition = 0, ofp_Offset = - 1, ofp_LeaderEpoch = - 1, ofp_ErrorCode = 0\<rparr>,
             \<lparr>ofp_Partition = 1, ofp_Offset = 42, ofp_LeaderEpoch = 3, ofp_ErrorCode = 0\<rparr>]\<rparr>]\<rparr>"

definition ex_fetched_v1 :: OffsetFetchResponse where
  "ex_fetched_v1 =
     \<lparr>ofr_Version = 1, ofr_ErrorCode = 0,
      ofr_Topics =
        [\<lparr>oft_Topic = ''t'',
          oft_Partitions =
            [\<lparr>ofp_Partition = 0, ofp_Offset = 7, ofp_LeaderEpoch = 0, ofp_ErrorCode = 3\<rparr>]\<rparr>]\<rparr>"

text \<open>
  A member that had partition 0 of \<open>t\<close> and is now assigned partition 0 of \<open>t\<close>
  twice.
\<close>

definition ex_repeated :: groupConsumer where
  "ex_repeated =
     ex_group\<lparr>lastAssigned := Some [(''t'', [0])], nowAssigned := [(''t'', [0, 0])]\<rparr>"

text \<open>
  A third response, of version 5 with the retriable code 14 at the top: partition 0 of
  \<open>t\<close> is fine and partition 1 reports code 3.
\<close>

definition ex_fetched_bad :: OffsetFetchResponse where
  "ex_fetched_bad =
     \<lparr>ofr_Version = 5, ofr_ErrorCode = 14,
      ofr_Topics =
        [\<lparr>oft_Topic = ''t'',
          oft_Partitions =
            [\<lparr>ofp_Partition = 0, ofp_Offset = 7, ofp_LeaderEpoch = 2, ofp_ErrorCode = 0\<rparr>,
             \<lparr>ofp_Partition = 1, ofp_Offset = 9, ofp_LeaderEpoch = 2, ofp_ErrorCode = 3\<rparr>]\<rparr>]\<rparr>"





text \<open>
  For \<open>updateCommitted\<close>: the member with three ledger entries, \<open>t/0\<close> consumed up to
  10 and committed up to 5, \<open>t/1\<close> consumed up to 20 and committed up to 15, \<open>u/0\<close>
  consumed up to 7 and committed up to 0; a commit of all three heads at generation 5,
  with \<open>u\<close> before \<open>t\<close> and partition 1 before partition 0; and its response, with \<open>t\<close>
  before \<open>u\<close>, which reports code 3 on \<open>t/1\<close>. The transactional request and response
  carry the same topics.
\<close>

definition ex_ledger_group :: groupConsumer where
  "ex_ledger_group =
     ex_group\<lparr>uncommitted :=
       Some [(''t'', [(0, \<lparr>head = \<lparr>Epoch = 1, Offset = 10\<rparr>,
                            committed = \<lparr>Epoch = 1, Offset = 5\<rparr>\<rparr>),
                      (1, \<lparr>head = \<lparr>Epoch = 1, Offset = 20\<rparr>,
                            committed = \<lparr>Epoch = 1, Offset = 15\<rparr>\<rparr>)]),
             (''u'', [(0, \<lparr>head = \<lparr>Epoch = 2, Offset = 7\<rparr>,
                            committed = \<lparr>Epoch = 2, Offset = 0\<rparr>\<rparr>)])]\<rparr>"

definition ex_commit_req :: OffsetCommitRequest where
  "ex_commit_req =
     \<lparr>oc_Group = ''grp'', oc_Generation = 5, oc_MemberID = ''m1'', oc_InstanceID = None,
      oc_Topics =
        [\<lparr>q_Topic = ''u'',
          q_Partitions = [\<lparr>q_Partition = 0, q_Offset = 7, q_LeaderEpoch = 2,
                           q_Metadata = Some ''m1''\<rparr>]\<rparr>,
         \<lparr>q_Topic = ''t'',
          q_Partitions = [\<lparr>q_Partition = 1, q_Offset = 20, q_LeaderEpoch = 1,
                           q_Metadata = Some ''m1''\<rparr>,
                          \<lparr>q_Partition = 0, q_Offset = 10, q_LeaderEpoch = 1,
                           q_Metadata = Some ''m1''\<rparr>]\<rparr>]\<rparr>"

definition ex_commit_resp :: OffsetCommitResponse where
  "ex_commit_resp =
     \<lparr>ocr_Topics =
        [\<lparr>r_Topic = ''t'',
          r_Partitions = [\<lparr>r_Partition = 1, r_ErrorCode = 3\<rparr>,
                          \<lparr>r_Partition = 0, r_ErrorCode = 0\<rparr>]\<rparr>,
         \<lparr>r_Topic = ''u'',
          r_Partitions = [\<lparr>r_Partition = 0, r_ErrorCode = 0\<rparr>]\<rparr>]\<rparr>"

definition ex_txn_req :: TxnOffsetCommitRequest where
  "ex_txn_req =
     \<lparr>tc_TransactionalID = ''txn'', tc_Group = ''grp'', tc_ProducerID = 7,
      tc_ProducerEpoch = 0, tc_Topics = oc_Topics ex_commit_req\<rparr>"

definition ex_txn_resp :: TxnOffsetCommitResponse where
  "ex_txn_resp = \<lparr>tcr_Topics = ocr_Topics ex_commit_resp\<rparr>"

section \<open>Theorems\<close>

text \<open>
  C1. A commit response whose request carries a generation other than the session's
  current one is dropped whole by \<open>updateCommitted\<close>: the uncommitted ledger is left as
  it was. Nothing else changes either: the group, the request and the response are
  returned untouched.
\<close>

theorem updateCommitted_generation_mismatch:
  assumes "oc_Generation req \<noteq> generation g"
  shows "uncommitted (fst (updateCommitted g req resp)) = uncommitted g
         \<and> updateCommitted g req resp = (g, req, resp)"
  using assms by (simp add: updateCommitted_def)

theorem updateCommitted_generation_mismatch_witness:
  "oc_Generation ex_req \<noteq> generation ex_group
   \<and> uncommitted (fst (updateCommitted ex_group ex_req ex_resp)) = uncommitted ex_group
   \<and> updateCommitted ex_group ex_req ex_resp = (ex_group, ex_req, ex_resp)"
proof -
  have h: "oc_Generation ex_req \<noteq> generation ex_group"
    by (simp add: ex_req_def ex_group_def)
  show ?thesis using h updateCommitted_generation_mismatch [OF h, of ex_resp] by simp
qed

text \<open>
  C4, at a fetch that carries two topics. \<open>updateUncommitted\<close> is to set, for every
  partition delivered with records, the head of that partition to just past its final
  record. Starting from an empty ledger, the fetch \<open>ex_fetch\<close> should leave \<open>a/0\<close> with
  head offset 6 and \<open>b/0\<close> with head offset 10. The code files the partition of \<open>b\<close>
  under \<open>a\<close>: \<open>topicOffsets\<close> is declared per fetch and still holds the inner map of \<open>a\<close>
  when the loop reaches \<open>b\<close>. The ledger ends with \<open>a/0\<close> at head offset 10 and no entry
  for \<open>b\<close>.
\<close>

theorem updateUncommitted_second_topic_misfiled:
  "uncommitted (updateUncommitted (ex_group\<lparr>uncommitted := None\<rparr>) [ex_fetch]) =
     Some [(''a'', [(0, \<lparr>head = \<lparr>Epoch = 1, Offset = 10\<rparr>,
                          committed = \<lparr>Epoch = 0, Offset = 0\<rparr>\<rparr>)])]"
  by (simp add: updateUncommitted_def updateUncommitted_fetch_def
        updateUncommitted_partition_def ex_fetch_def ex_group_def zero_uncommit_def)

text \<open>
  C8. \<open>leave\<close> sends no LeaveGroup request when the instance ID is set. When it is not
  set, \<open>leave\<close> sends exactly one, for the group, carrying the member's ID both as the
  request's member and as its only entry of \<open>Members\<close>.
\<close>

theorem leave_static_member:
  "(instanceID g \<noteq> None \<longrightarrow> filter is_LeaveGroup (leave g) = [])
   \<and> (instanceID g = None \<longrightarrow>
        filter is_LeaveGroup (leave g) =
          [RequestLeaveGroup \<lparr>lg_Group = group_id g, lg_MemberID = memberID g,
                              lg_Members = [\<lparr>lgm_MemberID = memberID g\<rparr>]\<rparr>])"
  by (simp add: leave_def)

theorem leave_static_member_witness:
  "instanceID (ex_group\<lparr>instanceID := Some ''svc-0''\<rparr>) \<noteq> None
   \<and> filter is_LeaveGroup (leave (ex_group\<lparr>instanceID := Some ''svc-0''\<rparr>)) = []
   \<and> instanceID ex_group = None
   \<and> filter is_LeaveGroup (leave ex_group) =
       [RequestLeaveGroup \<lparr>lg_Group = ''grp'', lg_MemberID = ''m1'',
                           lg_Members = [\<lparr>lgm_MemberID = ''m1''\<rparr>]\<rparr>]"
  using leave_static_member [of "ex_group\<lparr>instanceID := Some ''svc-0''\<rparr>"]
        leave_static_member [of ex_group]
  by (simp add: ex_group_def)

text \<open>
  C10. For a cooperative group, \<open>revoke\<close> with nothing lost does nothing, whatever the
  stage and the callback: the group is returned as it was (the ledger and the rejoin
  channel with it) and the trace is empty, so no fetch is invalidated and \<open>onRevoked\<close>
  is not called.
\<close>

theorem revoke_cooperative_nothing_lost:
  assumes "cooperative g" and "length lost = 0"
  shows "revoke onRevoked g stage lost = (g, [])"
  using assms by (simp add: revoke_def)

theorem revoke_cooperative_nothing_lost_witness:
  "cooperative ex_group \<and> length ([] :: assignment) = 0
   \<and> revoke (Some (\<lambda>g lost. g\<lparr>uncommitted := None\<rparr>)) ex_group revokeLastSession []
       = (ex_group, [])"
proof -
  have c: "cooperative ex_group" by (simp add: ex_group_def)
  have l: "length ([] :: assignment) = 0" by simp
  show ?thesis
    using c l revoke_cooperative_nothing_lost
                [OF c l, of "Some (\<lambda>g lost. g\<lparr>uncommitted := None\<rparr>)" revokeLastSession]
    by simp
qed

subsection \<open>diffAssigned\<close>

lemma get_slice_update:
  "get_slice (AList.update k v al) k' = (if k' = k then v else get_slice al k')"
  by (simp add: get_slice_def update_conv')

lemma diffAssigned_now_effect:
  "diffAssigned_now topic np lasts added = (lasts', added') \<Longrightarrow>
     set lasts' = set lasts - set np
     \<and> (\<forall>t. t \<noteq> topic \<longrightarrow> map_of added' t = map_of added t)
     \<and> (\<exists>xs. get_slice added' topic = get_slice added topic @ xs
             \<and> set xs \<subseteq> set np \<and> set np - set lasts \<subseteq> set xs
             \<and> (distinct np \<longrightarrow> set xs = set np - set lasts)
             \<and> (xs = [] \<longrightarrow> map_of added' topic = map_of added topic))"
proof (induction np arbitrary: lasts added)
  case Nil
  then show ?case by simp
next
  case (Cons p np)
  show ?case
  proof (cases "p \<in> set lasts")
    case True
    with Cons.prems have r: "diffAssigned_now topic np (removeAll p lasts) added = (lasts', added')"
      by simp
    from Cons.IH [OF r] obtain xs where
      l: "set lasts' = set (removeAll p lasts) - set np"
      and f: "\<forall>t. t \<noteq> topic \<longrightarrow> map_of added' t = map_of added t"
      and x: "get_slice added' topic = get_slice added topic @ xs"
         "set xs \<subseteq> set np" "set np - set (removeAll p lasts) \<subseteq> set xs"
         "distinct np \<longrightarrow> set xs = set np - set (removeAll p lasts)"
         "xs = [] \<longrightarrow> map_of added' topic = map_of added topic"
      by blast
    have "set lasts' = set lasts - set (p # np)" using l by auto
    moreover have "set xs \<subseteq> set (p # np)" using x(2) by auto
    moreover have "set (p # np) - set lasts \<subseteq> set xs" using x(3) True by auto
    moreover have "distinct (p # np) \<longrightarrow> set xs = set (p # np) - set lasts"
      using x(4) True by auto
    ultimately show ?thesis using f x(1) x(5) by blast
  next
    case False
    with Cons.prems have r:
      "diffAssigned_now topic np lasts
         (AList.update topic (get_slice added topic @ [p]) added) = (lasts', added')"
      by simp
    from Cons.IH [OF r] obtain xs where
      l: "set lasts' = set lasts - set np"
      and f: "\<forall>t. t \<noteq> topic \<longrightarrow>
                map_of added' t = map_of (AList.update topic (get_slice added topic @ [p]) added) t"
      and x: "get_slice added' topic
                = get_slice (AList.update topic (get_slice added topic @ [p]) added) topic @ xs"
         "set xs \<subseteq> set np" "set np - set lasts \<subseteq> set xs"
         "distinct np \<longrightarrow> set xs = set np - set lasts"
      by blast
    have "set lasts' = set lasts - set (p # np)" using l False by auto
    moreover have "\<forall>t. t \<noteq> topic \<longrightarrow> map_of added' t = map_of added t"
      using f by (simp add: update_conv')
    moreover have "get_slice added' topic = get_slice added topic @ (p # xs)"
      using x(1) by (simp add: get_slice_update)
    moreover have "set (p # xs) \<subseteq> set (p # np)" using x(2) by auto
    moreover have "set (p # np) - set lasts \<subseteq> set (p # xs)" using x(3) by auto
    moreover have "distinct (p # np) \<longrightarrow> set (p # xs) = set (p # np) - set lasts"
      using x(4) False by auto
    moreover have "p # xs = [] \<longrightarrow> map_of added' topic = map_of added topic" by simp
    ultimately show ?thesis by blast
  qed
qed

lemma diffAssigned_remaining_effect:
  "diffAssigned_remaining topic lasts lost = (lasts', lost') \<Longrightarrow>
     lasts' = []
     \<and> (\<forall>t. t \<noteq> topic \<longrightarrow> map_of lost' t = map_of lost t)
     \<and> get_slice lost' topic = get_slice lost topic @ lasts
     \<and> (lasts = [] \<longrightarrow> lost' = lost)"
proof (induction lasts arbitrary: lost)
  case Nil
  then show ?case by simp
next
  case (Cons p lasts)
  from Cons.prems have r:
    "diffAssigned_remaining topic lasts
       (AList.update topic (get_slice lost topic @ [p]) lost) = (lasts', lost')"
    by simp
  from Cons.IH [OF r] show ?case
    by (simp add: update_conv' get_slice_update)
qed

lemma set_fold_insert: "set (fold List.insert xs ys) = set xs \<union> set ys"
  by (induction xs arbitrary: ys) auto

lemma diffAssigned_last_Cons:
  "diffAssigned_last now ((topic, lp) # rest) [] (added, lost) =
     diffAssigned_last now rest [] (diffAssigned_last now [(topic, lp)] [] (added, lost))"
proof (cases "map_of now topic")
  case None
  then show ?thesis by simp
next
  case (Some np)
  obtain l1 a1 where n: "diffAssigned_now topic np (fold List.insert lp []) added = (l1, a1)"
    by (cases "diffAssigned_now topic np (fold List.insert lp []) added")
  obtain l2 lo2 where r: "diffAssigned_remaining topic l1 lost = (l2, lo2)"
    by (cases "diffAssigned_remaining topic l1 lost")
  have "l2 = []" using diffAssigned_remaining_effect [OF r] by simp
  then show ?thesis using Some n r by simp
qed

lemma diffAssigned_last_single:
  assumes "diffAssigned_last now [(topic, lp)] [] (added, lost) = (added', lost')"
  shows "(\<forall>t. t \<noteq> topic \<longrightarrow> map_of added' t = map_of added t \<and> map_of lost' t = map_of lost t)
     \<and> (map_of now topic = None \<longrightarrow> map_of lost' topic = Some lp \<and> added' = added)
     \<and> (\<forall>np. map_of now topic = Some np \<longrightarrow>
            (\<exists>xs ys. get_slice added' topic = get_slice added topic @ xs
               \<and> get_slice lost' topic = get_slice lost topic @ ys
               \<and> set ys = set lp - set np
               \<and> set xs \<subseteq> set np \<and> set np - set lp \<subseteq> set xs
               \<and> (distinct np \<longrightarrow> set xs = set np - set lp)
               \<and> (xs = [] \<longrightarrow> map_of added' topic = map_of added topic)
               \<and> (ys = [] \<longrightarrow> map_of lost' topic = map_of lost topic)))"
proof (cases "map_of now topic")
  case None
  with assms show ?thesis by (auto simp: update_conv')
next
  case (Some np)
  obtain l1 a1 where n: "diffAssigned_now topic np (fold List.insert lp []) added = (l1, a1)"
    by (cases "diffAssigned_now topic np (fold List.insert lp []) added")
  obtain l2 lo2 where r: "diffAssigned_remaining topic l1 lost = (l2, lo2)"
    by (cases "diffAssigned_remaining topic l1 lost")
  from assms Some n r have e: "added' = a1" "lost' = lo2" by simp_all
  note N = diffAssigned_now_effect [OF n]
  note R = diffAssigned_remaining_effect [OF r]
  from N obtain xs where
    x: "get_slice a1 topic = get_slice added topic @ xs"
       "set xs \<subseteq> set np" "set np - set (fold List.insert lp []) \<subseteq> set xs"
       "distinct np \<longrightarrow> set xs = set np - set (fold List.insert lp [])"
       "xs = [] \<longrightarrow> map_of a1 topic = map_of added topic"
    by blast
  have l1: "set l1 = set lp - set np" using N by (simp add: set_fold_insert)
  have "get_slice lost' topic = get_slice lost topic @ l1" using R e by simp
  moreover have "l1 = [] \<longrightarrow> map_of lost' topic = map_of lost topic" using R e by simp
  moreover have "\<forall>t. t \<noteq> topic \<longrightarrow> map_of added' t = map_of added t \<and> map_of lost' t = map_of lost t"
    using N R e by simp
  ultimately show ?thesis using Some x l1 e by (auto simp: set_fold_insert)
qed


lemma diffAssigned_last_frame:
  "diffAssigned_last now rest [] (added, lost) = (added', lost') \<Longrightarrow> t \<notin> fst ` set rest \<Longrightarrow>
     map_of added' t = map_of added t \<and> map_of lost' t = map_of lost t"
proof (induction rest arbitrary: added lost)
  case Nil
  then show ?case by simp
next
  case (Cons e rest)
  obtain t0 lp0 where e: "e = (t0, lp0)" by (cases e)
  obtain a1 l1 where s: "diffAssigned_last now [(t0, lp0)] [] (added, lost) = (a1, l1)"
    by (cases "diffAssigned_last now [(t0, lp0)] [] (added, lost)")
  have step: "diffAssigned_last now (e # rest) [] (added, lost)
          = diffAssigned_last now rest [] (a1, l1)"
    unfolding e by (subst diffAssigned_last_Cons) (simp only: s)
  have r: "diffAssigned_last now rest [] (a1, l1) = (added', lost')"
    unfolding step [symmetric] by (rule Cons.prems(1))
  from Cons.prems(2) e have ne: "t \<noteq> t0" and nr: "t \<notin> fst ` set rest" by auto
  from diffAssigned_last_single [OF s, THEN conjunct1, THEN spec, of t] ne
  have "map_of a1 t = map_of added t \<and> map_of l1 t = map_of lost t" by simp
  with Cons.IH [OF r nr] show ?case by simp
qed

lemma get_slice_cong: "map_of a t = map_of b t \<Longrightarrow> get_slice a t = get_slice b t"
  by (simp add: get_slice_def)

lemma diffAssigned_last_single_fresh:
  assumes s: "diffAssigned_last now [(topic, lp)] [] (added, lost) = (added', lost')"
    and a: "map_of added topic = None" and l: "map_of lost topic = None"
    and n: "map_of now topic = Some np"
  shows "set (get_slice lost' topic) = set lp - set np"
    and "set (get_slice added' topic) \<subseteq> set np"
    and "set np - set lp \<subseteq> set (get_slice added' topic)"
    and "distinct np \<Longrightarrow> set (get_slice added' topic) = set np - set lp"
proof -
  have g0: "get_slice added topic = []" "get_slice lost topic = []"
    using a l by (simp_all add: get_slice_def)
  from diffAssigned_last_single [OF s, THEN conjunct2, THEN conjunct2, THEN spec, of np] n
  obtain xs ys where
    x: "get_slice added' topic = get_slice added topic @ xs"
       "get_slice lost' topic = get_slice lost topic @ ys"
       "set ys = set lp - set np" "set xs \<subseteq> set np" "set np - set lp \<subseteq> set xs"
       "distinct np \<longrightarrow> set xs = set np - set lp"
    by blast
  have ax: "get_slice added' topic = xs" and ly: "get_slice lost' topic = ys"
    using x(1,2) g0 by simp_all
  show "set (get_slice lost' topic) = set lp - set np" unfolding ly by (rule x(3))
  show "set (get_slice added' topic) \<subseteq> set np" unfolding ax by (rule x(4))
  show "set np - set lp \<subseteq> set (get_slice added' topic)" unfolding ax by (rule x(5))
  show "distinct np \<Longrightarrow> set (get_slice added' topic) = set np - set lp"
    unfolding ax using x(6) by simp
qed

lemma diffAssigned_last_single_gone:
  assumes s: "diffAssigned_last now [(topic, lp)] [] (added, lost) = (added', lost')"
    and n: "map_of now topic = None"
  shows "map_of lost' topic = Some lp" and "added' = added"
  using diffAssigned_last_single [OF s, THEN conjunct2, THEN conjunct1] n by simp_all

lemma diffAssigned_last_single_frame:
  assumes s: "diffAssigned_last now [(topic, lp)] [] (added, lost) = (added', lost')"
    and n: "t \<noteq> topic"
  shows "map_of added' t = map_of added t" and "map_of lost' t = map_of lost t"
  using diffAssigned_last_single [OF s, THEN conjunct1, THEN spec, of t] n by simp_all

lemma diffAssigned_last_entry:
  assumes "distinct (map fst rest)" and "(t, lp) \<in> set rest"
    and "map_of added t = None" and "map_of lost t = None"
    and "diffAssigned_last now rest [] (added, lost) = (added', lost')"
  shows "(map_of now t = None \<longrightarrow> map_of lost' t = Some lp \<and> map_of added' t = None)
     \<and> (\<forall>np. map_of now t = Some np \<longrightarrow>
            set (get_slice lost' t) = set lp - set np
            \<and> set (get_slice added' t) \<subseteq> set np
            \<and> set np - set lp \<subseteq> set (get_slice added' t)
            \<and> (distinct np \<longrightarrow> set (get_slice added' t) = set np - set lp))"
  using assms
proof (induction rest arbitrary: added lost)
  case Nil
  then show ?case by simp
next
  case (Cons e rest)
  obtain t0 lp0 where e: "e = (t0, lp0)" by (cases e)
  obtain a1 l1 where s: "diffAssigned_last now [(t0, lp0)] [] (added, lost) = (a1, l1)"
    by (cases "diffAssigned_last now [(t0, lp0)] [] (added, lost)")
  have step: "diffAssigned_last now (e # rest) [] (added, lost)
          = diffAssigned_last now rest [] (a1, l1)"
    unfolding e by (subst diffAssigned_last_Cons) (simp only: s)
  have r: "diffAssigned_last now rest [] (a1, l1) = (added', lost')"
    unfolding step [symmetric] by (rule Cons.prems(5))
  show ?case
  proof (cases "t0 = t")
    case True
    from Cons.prems(1) e True have nr: "t \<notin> fst ` set rest" by simp
    have "(t, lp) \<notin> set rest"
    proof
      assume "(t, lp) \<in> set rest"
      then have "fst (t, lp) \<in> fst ` set rest" by (rule imageI)
      with nr show False by simp
    qed
    with Cons.prems(2) e True have lp: "lp0 = lp" by simp
    have s': "diffAssigned_last now [(t, lp)] [] (added, lost) = (a1, l1)"
      using s True lp by simp
    note fr = diffAssigned_last_frame [OF r nr, THEN conjunct1]
              diffAssigned_last_frame [OF r nr, THEN conjunct2]
    note gs = fr [THEN get_slice_cong]
    show ?thesis
    proof (intro conjI impI allI)
      assume n: "map_of now t = None"
      show "map_of lost' t = Some lp"
        unfolding fr by (rule diffAssigned_last_single_gone(1) [OF s' n])
      show "map_of added' t = None"
        unfolding fr diffAssigned_last_single_gone(2) [OF s' n] by (rule Cons.prems(3))
    next
      fix np assume n: "map_of now t = Some np"
      note F = diffAssigned_last_single_fresh [OF s' Cons.prems(3) Cons.prems(4) n]
      show "set (get_slice lost' t) = set lp - set np" unfolding gs by (rule F(1))
      show "set (get_slice added' t) \<subseteq> set np" unfolding gs by (rule F(2))
      show "set np - set lp \<subseteq> set (get_slice added' t)" unfolding gs by (rule F(3))
      assume "distinct np"
      then show "set (get_slice added' t) = set np - set lp" unfolding gs by (rule F(4))
    qed
  next
    case False
    with Cons.prems(2) e have m: "(t, lp) \<in> set rest" by auto
    from Cons.prems(1) have d: "distinct (map fst rest)" by simp
    from False have ne: "t \<noteq> t0" by simp
    have z: "map_of a1 t = None" "map_of l1 t = None"
      using diffAssigned_last_single_frame [OF s ne] Cons.prems(3,4) by simp_all
    from Cons.IH [OF d m z r] show ?thesis .
  qed
qed

lemma diffAssigned_new_map_of:
  "distinct (map fst now) \<Longrightarrow>
     map_of (diffAssigned_new lastA now added) t =
       (if map_of lastA t = None \<and> t \<in> fst ` set now then map_of now t else map_of added t)"
proof (induction now arbitrary: added)
  case Nil
  then show ?case by simp
next
  case (Cons e now)
  obtain t0 np0 where e: "e = (t0, np0)" by (cases e)
  from Cons.prems e have d: "distinct (map fst now)" and n0: "t0 \<notin> fst ` set now" by auto
  show ?case
  proof (cases "t = t0")
    case True
    show ?thesis
    proof (cases "map_of lastA t0")
      case T: None
      have "map_of (diffAssigned_new lastA now (AList.update t0 np0 added)) t0 = Some np0"
        using Cons.IH [OF d, of "AList.update t0 np0 added"] n0 True
        by (simp add: update_conv')
      with T True e show ?thesis by simp
    next
      case F: (Some y)
      have "map_of (diffAssigned_new lastA now added) t0 = map_of added t0"
        using Cons.IH [OF d, of added] n0 True by simp
      with F True e show ?thesis by simp
    qed
  next
    case False
    show ?thesis
    proof (cases "map_of lastA t0")
      case T: None
      have "map_of (diffAssigned_new lastA now (AList.update t0 np0 added)) t
              = (if map_of lastA t = None \<and> t \<in> fst ` set now then map_of now t
                 else map_of added t)"
        using Cons.IH [OF d, of "AList.update t0 np0 added"] False
        by (simp add: update_conv')
      with T False e show ?thesis by simp
    next
      case F: (Some y)
      with Cons.IH [OF d, of added] False e show ?thesis by simp
    qed
  qed
qed

lemma diffAssigned_new_lost_first:
  "distinct (map fst now) \<Longrightarrow> fst ` set now \<inter> fst ` set added = {} \<Longrightarrow>
     diffAssigned_new [] now added = added @ now"
proof (induction now arbitrary: added)
  case Nil
  then show ?case by simp
next
  case (Cons e now)
  obtain t0 np0 where e: "e = (t0, np0)" by (cases e)
  have u: "AList.update t0 np0 added = added @ [(t0, np0)]"
    using Cons.prems(2) e by (induction added) auto
  have "fst ` set now \<inter> fst ` set (added @ [(t0, np0)]) = {}"
    using Cons.prems e by auto
  with Cons.IH [of "added @ [(t0, np0)]"] Cons.prems(1) e u show ?case by simp
qed

text \<open>
  C5, where it fails. With partition 0 of \<open>t\<close> in the last assignment and listed twice
  in the present one, no partition is new and the added set should be empty. The loop
  over \<open>nowPartitions\<close> deletes 0 from \<open>lasts\<close> at its first occurrence and no longer
  finds it there at the second, so \<open>diffAssigned\<close> reports partition 0 of \<open>t\<close> as
  added: the added set is not the set of partitions now assigned and not assigned
  before.
\<close>

theorem diffAssigned_repeated_partition_added:
  "lastAssigned ex_repeated = Some [(''t'', [0])]
   \<and> nowAssigned ex_repeated = [(''t'', [0, 0])]
   \<and> diffAssigned ex_repeated = ([(''t'', [0])], [])
   \<and> set (get_slice (fst (diffAssigned ex_repeated)) ''t'') \<noteq> set [0, 0 :: int32] - set [0]"
  by (simp add: ex_repeated_def ex_group_def diffAssigned_def get_slice_def)

text \<open>
  C5, amended. \<open>diffAssigned\<close> computes the added and the lost partitions, for
  assignments held as Go maps (no topic twice). When \<open>lastAssigned\<close> is nil or empty,
  everything now assigned is added and nothing is lost. Otherwise, topic by topic: a
  topic of \<open>lastAssigned\<close> that \<open>nowAssigned\<close> does not have is lost with all its
  partitions and adds nothing; for a topic that both have, the lost partitions are
  exactly those of the last assignment that are not in the present one, every
  partition of the present one that is not in the last is added and only partitions of
  the present one are, and the added ones are exactly those when the topic's present
  list names no partition twice; a topic that only \<open>nowAssigned\<close> has is added with
  all its partitions and loses nothing; a topic that neither has is in neither result.
\<close>

theorem diffAssigned_added_lost:
  assumes "distinct (map fst (nowAssigned g))"
    and "\<forall>lastA. lastAssigned g = Some lastA \<longrightarrow> distinct (map fst lastA)"
  shows "(lastAssigned g = None \<or> lastAssigned g = Some [] \<longrightarrow>
            diffAssigned g = (nowAssigned g, []))
     \<and> (\<forall>lastA t. lastAssigned g = Some lastA \<longrightarrow>
          (case (map_of lastA t, map_of (nowAssigned g) t) of
             (Some lp, None) \<Rightarrow>
               map_of (snd (diffAssigned g)) t = Some lp \<and> map_of (fst (diffAssigned g)) t = None
           | (Some lp, Some np) \<Rightarrow>
               set (get_slice (snd (diffAssigned g)) t) = set lp - set np
               \<and> set np - set lp \<subseteq> set (get_slice (fst (diffAssigned g)) t)
               \<and> set (get_slice (fst (diffAssigned g)) t) \<subseteq> set np
               \<and> (distinct np \<longrightarrow> set (get_slice (fst (diffAssigned g)) t) = set np - set lp)
           | (None, Some np) \<Rightarrow>
               map_of (fst (diffAssigned g)) t = Some np \<and> map_of (snd (diffAssigned g)) t = None
           | (None, None) \<Rightarrow>
               map_of (fst (diffAssigned g)) t = None \<and> map_of (snd (diffAssigned g)) t = None))"
proof (intro conjI allI impI)
  assume "lastAssigned g = None \<or> lastAssigned g = Some []"
  then show "diffAssigned g = (nowAssigned g, [])"
    using assms(1) diffAssigned_new_lost_first [of "nowAssigned g" "[]"]
    by (auto simp: diffAssigned_def)
next
  fix lastA t
  assume la: "lastAssigned g = Some lastA"
  with assms(2) have dl: "distinct (map fst lastA)" by simp
  obtain a1 l1 where s: "diffAssigned_last (nowAssigned g) lastA [] ([], []) = (a1, l1)"
    by (cases "diffAssigned_last (nowAssigned g) lastA [] ([], [])")
  have d: "diffAssigned g = (diffAssigned_new lastA (nowAssigned g) a1, l1)"
    using la s by (simp add: diffAssigned_def)
  note new = diffAssigned_new_map_of [OF assms(1), of lastA a1 t]
  show "case (map_of lastA t, map_of (nowAssigned g) t) of
             (Some lp, None) \<Rightarrow>
               map_of (snd (diffAssigned g)) t = Some lp \<and> map_of (fst (diffAssigned g)) t = None
           | (Some lp, Some np) \<Rightarrow>
               set (get_slice (snd (diffAssigned g)) t) = set lp - set np
               \<and> set np - set lp \<subseteq> set (get_slice (fst (diffAssigned g)) t)
               \<and> set (get_slice (fst (diffAssigned g)) t) \<subseteq> set np
               \<and> (distinct np \<longrightarrow> set (get_slice (fst (diffAssigned g)) t) = set np - set lp)
           | (None, Some np) \<Rightarrow>
               map_of (fst (diffAssigned g)) t = Some np \<and> map_of (snd (diffAssigned g)) t = None
           | (None, None) \<Rightarrow>
               map_of (fst (diffAssigned g)) t = None \<and> map_of (snd (diffAssigned g)) t = None"
  proof (cases "map_of lastA t")
    case None
    then have nt: "t \<notin> fst ` set lastA" by (simp add: map_of_eq_None_iff)
    from diffAssigned_last_frame [OF s nt]
    have fr: "map_of a1 t = None" "map_of l1 t = None" by simp_all
    show ?thesis
    proof (cases "map_of (nowAssigned g) t")
      case N2: None
      then have "t \<notin> fst ` set (nowAssigned g)" by (simp add: map_of_eq_None_iff)
      with None N2 d new fr show ?thesis by simp
    next
      case (Some np)
      then have "map_of (nowAssigned g) t \<noteq> None" by simp
      then have "t \<in> fst ` set (nowAssigned g)" by (simp add: map_of_eq_None_iff)
      with None Some d new fr show ?thesis by simp
    qed
  next
    case (Some lp)
    then have m: "(t, lp) \<in> set lastA" by (rule map_of_SomeD)
    note E = diffAssigned_last_entry [OF dl m _ _ s, simplified]
    have na: "map_of (diffAssigned_new lastA (nowAssigned g) a1) t = map_of a1 t"
      using new Some by simp
    then have ga: "get_slice (diffAssigned_new lastA (nowAssigned g) a1) t = get_slice a1 t"
      by (rule get_slice_cong)
    show ?thesis
    proof (cases "map_of (nowAssigned g) t")
      case None
      with Some E d na show ?thesis by simp
    next
      case S2: (Some np)
      with Some E d ga show ?thesis by simp
    qed
  qed
qed

theorem diffAssigned_added_lost_witness:
  "distinct (map fst (nowAssigned ex_rebalanced))
   \<and> lastAssigned ex_rebalanced = Some [(''t'', [0, 1, 2]), (''u'', [0])]
   \<and> distinct (map fst [(''t'', [0, 1, 2 :: int32]), (''u'', [0])])
   \<and> set (get_slice (snd (diffAssigned ex_rebalanced)) ''t'') = {1}
   \<and> set (get_slice (fst (diffAssigned ex_rebalanced)) ''t'') = {3}
   \<and> map_of (snd (diffAssigned ex_rebalanced)) ''u'' = Some [0]
   \<and> map_of (fst (diffAssigned ex_rebalanced)) ''v'' = Some [5]"
proof -
  have n: "distinct (map fst (nowAssigned ex_rebalanced))"
    by (simp add: ex_rebalanced_def ex_group_def)
  have l: "\<forall>lastA. lastAssigned ex_rebalanced = Some lastA \<longrightarrow> distinct (map fst lastA)"
    by (simp add: ex_rebalanced_def ex_group_def)
  have la: "lastAssigned ex_rebalanced = Some [(''t'', [0, 1, 2]), (''u'', [0])]"
    by (simp add: ex_rebalanced_def ex_group_def)
  have na: "nowAssigned ex_rebalanced = [(''t'', [0, 2, 3]), (''v'', [5])]"
    by (simp add: ex_rebalanced_def ex_group_def)
  note T = diffAssigned_added_lost [OF n l, THEN conjunct2, THEN spec, THEN spec, THEN mp, OF la]
  show ?thesis
    using n la T [of "''t''"] T [of "''u''"] T [of "''v''"]
    by (auto simp: na)
qed

subsection \<open>commit and commitTxn\<close>

lemma commit_topics_Nil: "commit_topics m u = [] \<longleftrightarrow> u = []"
  by (simp add: commit_topics_def)

lemma commit_run_calls_onDone:
  assumes "ct_uncommitted task \<noteq> []"
  shows "\<exists>g' evs. commit_run gr task outcome = Inr (g', evs)
            \<and> length (filter is_OnDone evs) = 1
            \<and> length (filter is_Request evs) = 1
            \<and> last evs = CloseDone (ct_own task)
            \<and> (\<forall>err. outcome = Inl err \<longrightarrow>
                   (\<exists>rq. filter is_OnDone evs = [OnDone rq None (Some err)]))
            \<and> (\<forall>resp. outcome = Inr resp \<longrightarrow>
                   (\<exists>rq rs. filter is_OnDone evs = [OnDone rq (Some rs) None]))"
  using assms
  by (cases outcome)
     (auto simp: commit_run_def Let_def commit_topics_Nil split: option.splits prod.splits)

lemma commitTxn_run_calls_onDone:
  assumes "ctt_uncommitted task \<noteq> []"
  shows "\<exists>g' evs. commitTxn_run gr task outcome = Inr (g', evs)
            \<and> length (filter is_OnDone evs) = 1
            \<and> length (filter is_Request evs) = 1
            \<and> last evs = CloseDone (ctt_own task)
            \<and> (\<forall>err. outcome = Inl err \<longrightarrow>
                   (\<exists>rq. filter is_OnDone evs = [OnDoneTxn rq None (Some err)]))
            \<and> (\<forall>resp. outcome = Inr resp \<longrightarrow>
                   (\<exists>rq rs. filter is_OnDone evs = [OnDoneTxn rq (Some rs) None]))"
  using assms
  by (cases outcome)
     (auto simp: commitTxn_run_def Let_def commit_topics_Nil split: option.splits prod.splits)

lemma commit_starts_one:
  assumes "u \<noteq> []"
  shows "\<exists>g' evs task.
           commit g own c u = (g', evs, Some task)
           \<and> filter is_OnDone evs = [] \<and> filter is_Request evs = []
           \<and> filter is_SpawnCommit evs = [SpawnCommit own]
           \<and> ct_own task = own \<and> ct_priorDone task = commitDone g
           \<and> ct_uncommitted task = u
           \<and> commitCancel g' = Some own \<and> commitDone g' = Some own"
  using assms by (auto simp: commit_def Let_def split: option.splits)

lemma commitTxn_starts_one:
  assumes "u \<noteq> []"
  shows "\<exists>g' evs task.
           commitTxn (Some tid) pid pe g own c u = Inr (g', evs, Some task)
           \<and> filter is_OnDone evs = [] \<and> filter is_Request evs = []
           \<and> filter is_SpawnCommit evs = [SpawnCommit own]
           \<and> ctt_own task = own \<and> ctt_priorDone task = commitDone g
           \<and> ctt_uncommitted task = u
           \<and> commitCancel g' = Some own \<and> commitDone g' = Some own"
  using assms by (auto simp: commitTxn_def Let_def split: option.splits)

text \<open>
  C6. \<open>commit\<close> and \<open>commitTxn\<close> call \<open>onDone\<close> exactly once. With nothing to commit they
  call it at once, with a new empty request, a new empty response and no error, send no
  request and start no goroutine. Otherwise they return without calling it and without
  sending a request, having started exactly one commit goroutine, the one that owns the
  handles just installed in the group and that waits for the prior commit's done channel;
  run to its end from any state of the group and for any outcome of the request, that
  goroutine sends one request, calls \<open>onDone\<close> exactly once (with the error and no
  response when the request failed, with the response and no error otherwise) and ends
  by closing its done channel. (\<open>commitTxn\<close> dereferences the transactional ID in this
  second case, which its only caller has checked to be set.)
\<close>

theorem commit_onDone_exactly_once:
  "(length u = 0 \<longrightarrow>
      commit g own c u
        = (g, [OnDone new_OffsetCommitRequest (Some new_OffsetCommitResponse) None], None)
      \<and> commitTxn txnID pid pe g own c u
        = Inr (g, [OnDoneTxn new_TxnOffsetCommitRequest (Some new_TxnOffsetCommitResponse) None],
               None))
   \<and> (length u \<noteq> 0 \<longrightarrow>
        (\<exists>g' evs task.
           commit g own c u = (g', evs, Some task)
           \<and> filter is_OnDone evs = [] \<and> filter is_Request evs = []
           \<and> filter is_SpawnCommit evs = [SpawnCommit own]
           \<and> ct_own task = own \<and> ct_priorDone task = commitDone g
           \<and> commitCancel g' = Some own \<and> commitDone g' = Some own
           \<and> (\<forall>gr outcome. \<exists>g'' evs'.
                 commit_run gr task outcome = Inr (g'', evs')
                 \<and> length (filter is_OnDone evs') = 1
                 \<and> length (filter is_Request evs') = 1
                 \<and> last evs' = CloseDone own
                 \<and> (\<forall>err. outcome = Inl err \<longrightarrow>
                        (\<exists>rq. filter is_OnDone evs' = [OnDone rq None (Some err)]))
                 \<and> (\<forall>resp. outcome = Inr resp \<longrightarrow>
                        (\<exists>rq rs. filter is_OnDone evs' = [OnDone rq (Some rs) None])))))
   \<and> (length u \<noteq> 0 \<and> txnID \<noteq> None \<longrightarrow>
        (\<exists>g' evs task.
           commitTxn txnID pid pe g own c u = Inr (g', evs, Some task)
           \<and> filter is_OnDone evs = [] \<and> filter is_Request evs = []
           \<and> filter is_SpawnCommit evs = [SpawnCommit own]
           \<and> ctt_own task = own \<and> ctt_priorDone task = commitDone g
           \<and> commitCancel g' = Some own \<and> commitDone g' = Some own
           \<and> (\<forall>gr outcome. \<exists>g'' evs'.
                 commitTxn_run gr task outcome = Inr (g'', evs')
                 \<and> length (filter is_OnDone evs') = 1
                 \<and> length (filter is_Request evs') = 1
                 \<and> last evs' = CloseDone own
                 \<and> (\<forall>err. outcome = Inl err \<longrightarrow>
                        (\<exists>rq. filter is_OnDone evs' = [OnDoneTxn rq None (Some err)]))
                 \<and> (\<forall>resp. outcome = Inr resp \<longrightarrow>
                        (\<exists>rq rs. filter is_OnDone evs' = [OnDoneTxn rq (Some rs) None])))))"
proof (intro conjI impI)
  assume "length u = 0"
  then show "commit g own c u
        = (g, [OnDone new_OffsetCommitRequest (Some new_OffsetCommitResponse) None], None)"
    by (simp add: commit_def)
next
  assume "length u = 0"
  then show "commitTxn txnID pid pe g own c u
        = Inr (g, [OnDoneTxn new_TxnOffsetCommitRequest (Some new_TxnOffsetCommitResponse) None],
               None)"
    by (simp add: commitTxn_def)
next
  assume "length u \<noteq> 0"
  then have ne: "u \<noteq> []" by simp
  from commit_starts_one [OF ne, of g own c] obtain g' evs task where
    s: "commit g own c u = (g', evs, Some task)"
       "filter is_OnDone evs = []" "filter is_Request evs = []"
       "filter is_SpawnCommit evs = [SpawnCommit own]"
       "ct_own task = own" "ct_priorDone task = commitDone g"
       "ct_uncommitted task = u"
       "commitCancel g' = Some own" "commitDone g' = Some own"
    by blast
  have tu: "ct_uncommitted task \<noteq> []" using s(7) ne by simp
  have run: "\<forall>gr outcome. \<exists>g'' evs'.
                 commit_run gr task outcome = Inr (g'', evs')
                 \<and> length (filter is_OnDone evs') = 1
                 \<and> length (filter is_Request evs') = 1
                 \<and> last evs' = CloseDone own
                 \<and> (\<forall>err. outcome = Inl err \<longrightarrow>
                        (\<exists>rq. filter is_OnDone evs' = [OnDone rq None (Some err)]))
                 \<and> (\<forall>resp. outcome = Inr resp \<longrightarrow>
                        (\<exists>rq rs. filter is_OnDone evs' = [OnDone rq (Some rs) None]))"
    using commit_run_calls_onDone [OF tu] unfolding s(5) by blast
  show "\<exists>g' evs task.
           commit g own c u = (g', evs, Some task)
           \<and> filter is_OnDone evs = [] \<and> filter is_Request evs = []
           \<and> filter is_SpawnCommit evs = [SpawnCommit own]
           \<and> ct_own task = own \<and> ct_priorDone task = commitDone g
           \<and> commitCancel g' = Some own \<and> commitDone g' = Some own
           \<and> (\<forall>gr outcome. \<exists>g'' evs'.
                 commit_run gr task outcome = Inr (g'', evs')
                 \<and> length (filter is_OnDone evs') = 1
                 \<and> length (filter is_Request evs') = 1
                 \<and> last evs' = CloseDone own
                 \<and> (\<forall>err. outcome = Inl err \<longrightarrow>
                        (\<exists>rq. filter is_OnDone evs' = [OnDone rq None (Some err)]))
                 \<and> (\<forall>resp. outcome = Inr resp \<longrightarrow>
                        (\<exists>rq rs. filter is_OnDone evs' = [OnDone rq (Some rs) None])))"
    using s(1,2,3,4,5,6,8,9) run by blast
next
  assume a: "length u \<noteq> 0 \<and> txnID \<noteq> None"
  then have ne: "u \<noteq> []" by simp
  from a obtain tid where tid: "txnID = Some tid" by auto
  from commitTxn_starts_one [OF ne, of tid pid pe g own c] obtain g' evs task where
    s: "commitTxn (Some tid) pid pe g own c u = Inr (g', evs, Some task)"
       "filter is_OnDone evs = []" "filter is_Request evs = []"
       "filter is_SpawnCommit evs = [SpawnCommit own]"
       "ctt_own task = own" "ctt_priorDone task = commitDone g"
       "ctt_uncommitted task = u"
       "commitCancel g' = Some own" "commitDone g' = Some own"
    by blast
  have tu: "ctt_uncommitted task \<noteq> []" using s(7) ne by simp
  have run: "\<forall>gr outcome. \<exists>g'' evs'.
                 commitTxn_run gr task outcome = Inr (g'', evs')
                 \<and> length (filter is_OnDone evs') = 1
                 \<and> length (filter is_Request evs') = 1
                 \<and> last evs' = CloseDone own
                 \<and> (\<forall>err. outcome = Inl err \<longrightarrow>
                        (\<exists>rq. filter is_OnDone evs' = [OnDoneTxn rq None (Some err)]))
                 \<and> (\<forall>resp. outcome = Inr resp \<longrightarrow>
                        (\<exists>rq rs. filter is_OnDone evs' = [OnDoneTxn rq (Some rs) None]))"
    using commitTxn_run_calls_onDone [OF tu] unfolding s(5) by blast
  show "\<exists>g' evs task.
           commitTxn txnID pid pe g own c u = Inr (g', evs, Some task)
           \<and> filter is_OnDone evs = [] \<and> filter is_Request evs = []
           \<and> filter is_SpawnCommit evs = [SpawnCommit own]
           \<and> ctt_own task = own \<and> ctt_priorDone task = commitDone g
           \<and> commitCancel g' = Some own \<and> commitDone g' = Some own
           \<and> (\<forall>gr outcome. \<exists>g'' evs'.
                 commitTxn_run gr task outcome = Inr (g'', evs')
                 \<and> length (filter is_OnDone evs') = 1
                 \<and> length (filter is_Request evs') = 1
                 \<and> last evs' = CloseDone own
                 \<and> (\<forall>err. outcome = Inl err \<longrightarrow>
                        (\<exists>rq. filter is_OnDone evs' = [OnDoneTxn rq None (Some err)]))
                 \<and> (\<forall>resp. outcome = Inr resp \<longrightarrow>
                        (\<exists>rq rs. filter is_OnDone evs' = [OnDoneTxn rq (Some rs) None])))"
    unfolding tid using s(1,2,3,4,5,6,8,9) run by blast
qed


theorem commit_onDone_exactly_once_witness:
  "length ([] :: commit_offsets) = 0
   \<and> commit ex_group 1 False []
       = (ex_group, [OnDone new_OffsetCommitRequest (Some new_OffsetCommitResponse) None], None)
   \<and> commitTxn None 0 0 ex_group 1 False []
       = Inr (ex_group,
              [OnDoneTxn new_TxnOffsetCommitRequest (Some new_TxnOffsetCommitResponse) None], None)
   \<and> length [(''t'', [(0 :: int32, \<lparr>Epoch = 1, Offset = 10\<rparr>)])] \<noteq> 0
   \<and> Some ''txn'' \<noteq> None
   \<and> (\<exists>g' evs task.
         commit ex_group 1 False [(''t'', [(0, \<lparr>Epoch = 1, Offset = 10\<rparr>)])]
           = (g', evs, Some task)
         \<and> filter is_OnDone evs = [] \<and> filter is_Request evs = []
         \<and> filter is_SpawnCommit evs = [SpawnCommit 1]
         \<and> ct_own task = 1 \<and> ct_priorDone task = None
         \<and> commitCancel g' = Some 1 \<and> commitDone g' = Some 1
         \<and> (\<forall>gr outcome. \<exists>g'' evs'.
               commit_run gr task outcome = Inr (g'', evs')
               \<and> length (filter is_OnDone evs') = 1
               \<and> length (filter is_Request evs') = 1
               \<and> last evs' = CloseDone 1
               \<and> (\<forall>err. outcome = Inl err \<longrightarrow>
                      (\<exists>rq. filter is_OnDone evs' = [OnDone rq None (Some err)]))
               \<and> (\<forall>resp. outcome = Inr resp \<longrightarrow>
                      (\<exists>rq rs. filter is_OnDone evs' = [OnDone rq (Some rs) None]))))
   \<and> (\<exists>g' evs task.
         commitTxn (Some ''txn'') 7 0 ex_group 1 False [(''t'', [(0, \<lparr>Epoch = 1, Offset = 10\<rparr>)])]
           = Inr (g', evs, Some task)
         \<and> filter is_OnDone evs = [] \<and> filter is_Request evs = []
         \<and> filter is_SpawnCommit evs = [SpawnCommit 1]
         \<and> ctt_own task = 1 \<and> ctt_priorDone task = None
         \<and> commitCancel g' = Some 1 \<and> commitDone g' = Some 1
         \<and> (\<forall>gr outcome. \<exists>g'' evs'.
               commitTxn_run gr task outcome = Inr (g'', evs')
               \<and> length (filter is_OnDone evs') = 1
               \<and> length (filter is_Request evs') = 1
               \<and> last evs' = CloseDone 1
               \<and> (\<forall>err. outcome = Inl err \<longrightarrow>
                      (\<exists>rq. filter is_OnDone evs' = [OnDoneTxn rq None (Some err)]))
               \<and> (\<forall>resp. outcome = Inr resp \<longrightarrow>
                      (\<exists>rq rs. filter is_OnDone evs' = [OnDoneTxn rq (Some rs) None]))))"
proof -
  have d: "commitDone ex_group = None" by (simp add: ex_group_def)
  show ?thesis
    using commit_onDone_exactly_once [of "[]" ex_group 1 False None 0 0]
          commit_onDone_exactly_once
            [of "[(''t'', [(0, \<lparr>Epoch = 1, Offset = 10\<rparr>)])]" ex_group 1 False "Some ''txn''" 7 0]
    unfolding d by simp
qed

subsection \<open>fetchOffsets\<close>

lemma find_snoc:
  "find P (xs @ [x]) = (case find P xs of None \<Rightarrow> (if P x then Some x else None) | Some y \<Rightarrow> Some y)"
  by (induction xs) auto

lemma map_of_fold_update:
  "map_of (fold (\<lambda>x. AList.update (k x) (v x)) xs acc) key =
     (case find (\<lambda>x. k x = key) (rev xs) of None \<Rightarrow> map_of acc key | Some x \<Rightarrow> Some (v x))"
proof (induction xs arbitrary: acc)
  case Nil
  then show ?case by simp
next
  case (Cons x xs)
  show ?case
    by (cases "find (\<lambda>x. k x = key) (rev xs)")
       (simp_all add: Cons.IH find_snoc update_conv')
qed

lemma fetchOffsets_partitions_ok:
  "\<forall>rp \<in> set rps. ofp_ErrorCode rp = 0 \<Longrightarrow>
     fetchOffsets_partitions efc reset v acc rps =
       Inr (fold (\<lambda>rp. AList.update (ofp_Partition rp) (fetchOffsets_offset reset v rp)) rps acc)"
  by (induction rps arbitrary: acc) simp_all

lemma fetchOffsets_partitions_abort:
  "\<exists>rp \<in> set rps. ofp_ErrorCode rp \<noteq> 0 \<Longrightarrow>
     \<exists>e. fetchOffsets_partitions efc reset v acc rps = Inl e"
  by (induction rps arbitrary: acc) auto

lemma fetchOffsets_topics_ok:
  "\<forall>rt \<in> set rts. \<forall>rp \<in> set (oft_Partitions rt). ofp_ErrorCode rp = 0 \<Longrightarrow>
     fetchOffsets_topics efc reset v acc rts =
       Inr (fold (\<lambda>rt. AList.update (oft_Topic rt)
                    (fold (\<lambda>rp. AList.update (ofp_Partition rp) (fetchOffsets_offset reset v rp))
                       (oft_Partitions rt) []))
              rts acc)"
  by (induction rts arbitrary: acc) (simp_all add: fetchOffsets_partitions_ok)

lemma fetchOffsets_topics_abort:
  "\<exists>rt \<in> set rts. \<exists>rp \<in> set (oft_Partitions rt). ofp_ErrorCode rp \<noteq> 0 \<Longrightarrow>
     \<exists>e. fetchOffsets_topics efc reset v acc rts = Inl e"
proof (induction rts arbitrary: acc)
  case Nil
  then show ?case by simp
next
  case (Cons rt rts)
  show ?case
  proof (cases "\<exists>rp \<in> set (oft_Partitions rt). ofp_ErrorCode rp \<noteq> 0")
    case True
    from fetchOffsets_partitions_abort [OF True, of efc reset v "[]"]
    obtain e where "fetchOffsets_partitions efc reset v [] (oft_Partitions rt) = Inl e" ..
    then show ?thesis by simp
  next
    case False
    then have ok: "\<forall>rp \<in> set (oft_Partitions rt). ofp_ErrorCode rp = 0" by simp
    from False Cons.prems
    have "\<exists>rt \<in> set rts. \<exists>rp \<in> set (oft_Partitions rt). ofp_ErrorCode rp \<noteq> 0" by auto
    from Cons.IH [OF this] show ?thesis
      by (simp add: fetchOffsets_partitions_ok [OF ok])
  qed
qed

lemma fetchOffsets_offset_eq:
  "fetchOffsets_offset reset v rp =
     (if ofp_Offset rp = - 1 then reset
      else \<lparr>request = ofp_Offset rp,
            epoch = (if 5 \<le> sint v then ofp_LeaderEpoch rp else - 1)\<rparr>)"
  by (simp add: fetchOffsets_offset_def Let_def)

lemma lookup2_decoded:
  "lookup2
     (fold (\<lambda>rt. AList.update (oft_Topic rt)
              (fold (\<lambda>rp. AList.update (ofp_Partition rp) (d rp)) (oft_Partitions rt) []))
        rts [])
     t p =
   (case find (\<lambda>rt. oft_Topic rt = t) (rev rts) of
      None \<Rightarrow> None
    | Some rt \<Rightarrow>
        (case find (\<lambda>rp. ofp_Partition rp = p) (rev (oft_Partitions rt)) of
           None \<Rightarrow> None
         | Some rp \<Rightarrow> Some (d rp)))"
  unfolding lookup2_def
  by (simp add: map_of_fold_update split: option.splits)

lemma fetchOffsets_partitions_first_error:
  "find (\<lambda>rp. ofp_ErrorCode rp \<noteq> 0) rps = Some bad \<Longrightarrow>
     fetchOffsets_partitions efc reset v acc rps = Inl (efc (ofp_ErrorCode bad))"
  by (induction rps arbitrary: acc) (auto split: if_splits)

lemma find_append_cases:
  "find P (xs @ ys) = (case find P xs of None \<Rightarrow> find P ys | Some y \<Rightarrow> Some y)"
  by (induction xs) auto

lemma fetchOffsets_topics_first_error:
  "find (\<lambda>rp. ofp_ErrorCode rp \<noteq> 0) (concat (map oft_Partitions rts)) = Some bad \<Longrightarrow>
     fetchOffsets_topics efc reset v acc rts = Inl (efc (ofp_ErrorCode bad))"
proof (induction rts arbitrary: acc)
  case Nil
  then show ?case by simp
next
  case (Cons rt rts)
  show ?case
  proof (cases "find (\<lambda>rp. ofp_ErrorCode rp \<noteq> 0) (oft_Partitions rt)")
    case None
    then have ok: "\<forall>rp \<in> set (oft_Partitions rt). ofp_ErrorCode rp = 0"
      unfolding find_None_iff by simp
    from Cons.prems None
    have "find (\<lambda>rp. ofp_ErrorCode rp \<noteq> 0) (concat (map oft_Partitions rts)) = Some bad"
      by (simp add: find_append_cases)
    from Cons.IH [OF this] show ?thesis
      by (simp add: fetchOffsets_partitions_ok [OF ok])
  next
    case (Some b)
    with Cons.prems have "b = bad" by (simp add: find_append_cases)
    with Some have "find (\<lambda>rp. ofp_ErrorCode rp \<noteq> 0) (oft_Partitions rt) = Some bad" by simp
    from fetchOffsets_partitions_first_error [OF this, of efc reset v "[]"]
    show ?thesis by simp
  qed
qed

text \<open>
  C7. \<open>fetchOffsets\<close> decodes the OffsetFetch response. Below version 2 the error
  code is that of the first partition of the first topic, when there is one; from
  version 2 on it is the response's own. An error for that code that is not retriable
  is returned at once. When any partition of the response has a non-zero error code,
  the call does nothing beyond the request, so nothing is assigned, and, the top-level
  code giving no error or a retriable one, it returns what \<open>kerr.ErrorForCode\<close> gives
  for the code of the first such partition. When the top-level code gives no error or a
  retriable one and every partition's code is zero, the offsets handed to
  \<open>maybeAssignPartitions\<close> hold, for each topic and partition of the response (the last
  entry, where one is repeated): the configured reset offset when the stored offset is
  -1, and otherwise the stored offset with the response's leader epoch from version 5
  on and epoch -1 before.
\<close>

theorem fetchOffsets_decodes_response:
  "(sint (ofr_Version resp) < 2 \<and> ofr_Topics resp = firstTopic # moreTopics \<and> oft_Partitions firstTopic = firstPart # moreParts
      \<longrightarrow> fetchOffsets_errCode resp = ofp_ErrorCode firstPart)
   \<and> (2 \<le> sint (ofr_Version resp) \<longrightarrow> fetchOffsets_errCode resp = ofr_ErrorCode resp)
   \<and> (errorForCode (fetchOffsets_errCode resp) = Some e \<and> \<not> isRetriable e \<longrightarrow>
        fetchOffsets errorForCode isRetriable resetOffset g newAssigned (Inr resp) assigned
          = (Some e, [RequestOffsetFetch (fetchOffsets_request g newAssigned)]))
   \<and> ((\<exists>rt \<in> set (ofr_Topics resp). \<exists>rp \<in> set (oft_Partitions rt). ofp_ErrorCode rp \<noteq> 0) \<longrightarrow>
        snd (fetchOffsets errorForCode isRetriable resetOffset g newAssigned (Inr resp) assigned)
          = [RequestOffsetFetch (fetchOffsets_request g newAssigned)]
        \<and> (\<exists>bad. find (\<lambda>rp. ofp_ErrorCode rp \<noteq> 0)
                       (concat (map oft_Partitions (ofr_Topics resp))) = Some bad
              \<and> ofp_ErrorCode bad \<noteq> 0
              \<and> (errorForCode (fetchOffsets_errCode resp) = None
                   \<or> (\<exists>e'. errorForCode (fetchOffsets_errCode resp) = Some e' \<and> isRetriable e')
                 \<longrightarrow> fetchOffsets errorForCode isRetriable resetOffset g newAssigned (Inr resp)
                       assigned
                     = (errorForCode (ofp_ErrorCode bad),
                        [RequestOffsetFetch (fetchOffsets_request g newAssigned)]))))
   \<and> ((errorForCode (fetchOffsets_errCode resp) = None
         \<or> (\<exists>e'. errorForCode (fetchOffsets_errCode resp) = Some e' \<and> isRetriable e'))
        \<and> (\<forall>rt \<in> set (ofr_Topics resp). \<forall>rp \<in> set (oft_Partitions rt). ofp_ErrorCode rp = 0) \<longrightarrow>
        (\<exists>offs.
           fetchOffsets errorForCode isRetriable resetOffset g newAssigned (Inr resp) assigned
             = (if assigned then None else Some (OtherError ''stale group''),
                [RequestOffsetFetch (fetchOffsets_request g newAssigned),
                 MaybeAssignPartitions offs
                   (if cooperative g then assignWithoutInvalidating else assignInvalidateAll)]
                @ (if assigned then [ResetAndLoadOffsets] else []))
           \<and> (\<forall>t p. lookup2 offs t p =
                 (case find (\<lambda>rt. oft_Topic rt = t) (rev (ofr_Topics resp)) of
                    None \<Rightarrow> None
                  | Some rt \<Rightarrow>
                      (case find (\<lambda>rp. ofp_Partition rp = p) (rev (oft_Partitions rt)) of
                         None \<Rightarrow> None
                       | Some rp \<Rightarrow>
                           Some (if ofp_Offset rp = - 1 then resetOffset
                                 else \<lparr>request = ofp_Offset rp,
                                       epoch = (if 5 \<le> sint (ofr_Version resp)
                                                then ofp_LeaderEpoch rp else - 1)\<rparr>))))))"
proof (intro conjI impI)
  assume "sint (ofr_Version resp) < 2 \<and> ofr_Topics resp = firstTopic # moreTopics \<and> oft_Partitions firstTopic = firstPart # moreParts"
  then show "fetchOffsets_errCode resp = ofp_ErrorCode firstPart"
    by (simp add: fetchOffsets_errCode_def)
next
  assume "2 \<le> sint (ofr_Version resp)"
  then show "fetchOffsets_errCode resp = ofr_ErrorCode resp"
    by (simp add: fetchOffsets_errCode_def)
next
  assume "errorForCode (fetchOffsets_errCode resp) = Some e \<and> \<not> isRetriable e"
  then show "fetchOffsets errorForCode isRetriable resetOffset g newAssigned (Inr resp) assigned
          = (Some e, [RequestOffsetFetch (fetchOffsets_request g newAssigned)])"
    by (simp add: fetchOffsets_def)
next
  assume ex: "\<exists>rt \<in> set (ofr_Topics resp). \<exists>rp \<in> set (oft_Partitions rt). ofp_ErrorCode rp \<noteq> 0"
  from fetchOffsets_topics_abort [OF this, of errorForCode resetOffset "ofr_Version resp" "[]"]
  obtain e where
    "fetchOffsets_topics errorForCode resetOffset (ofr_Version resp) [] (ofr_Topics resp) = Inl e" ..
  then show "snd (fetchOffsets errorForCode isRetriable resetOffset g newAssigned (Inr resp) assigned)
          = [RequestOffsetFetch (fetchOffsets_request g newAssigned)]"
    by (simp add: fetchOffsets_def Let_def)
  from ex have "find (\<lambda>rp. ofp_ErrorCode rp \<noteq> 0)
                  (concat (map oft_Partitions (ofr_Topics resp))) \<noteq> None"
    unfolding find_None_iff by auto
  then obtain bad where
    f: "find (\<lambda>rp. ofp_ErrorCode rp \<noteq> 0)
          (concat (map oft_Partitions (ofr_Topics resp))) = Some bad"
    by blast
  then have nz: "ofp_ErrorCode bad \<noteq> 0" unfolding find_Some_iff by blast
  note T = fetchOffsets_topics_first_error
             [OF f, of errorForCode resetOffset "ofr_Version resp" "[]"]
  have r: "errorForCode (fetchOffsets_errCode resp) = None
             \<or> (\<exists>e'. errorForCode (fetchOffsets_errCode resp) = Some e' \<and> isRetriable e')
           \<longrightarrow> fetchOffsets errorForCode isRetriable resetOffset g newAssigned (Inr resp) assigned
                 = (errorForCode (ofp_ErrorCode bad),
                    [RequestOffsetFetch (fetchOffsets_request g newAssigned)])"
    using T by (auto simp: fetchOffsets_def Let_def)
  from f nz r
  show "\<exists>bad. find (\<lambda>rp. ofp_ErrorCode rp \<noteq> 0)
                       (concat (map oft_Partitions (ofr_Topics resp))) = Some bad
              \<and> ofp_ErrorCode bad \<noteq> 0
              \<and> (errorForCode (fetchOffsets_errCode resp) = None
                   \<or> (\<exists>e'. errorForCode (fetchOffsets_errCode resp) = Some e' \<and> isRetriable e')
                 \<longrightarrow> fetchOffsets errorForCode isRetriable resetOffset g newAssigned (Inr resp)
                       assigned
                     = (errorForCode (ofp_ErrorCode bad),
                        [RequestOffsetFetch (fetchOffsets_request g newAssigned)]))"
    by blast
next
  assume a: "(errorForCode (fetchOffsets_errCode resp) = None
         \<or> (\<exists>e'. errorForCode (fetchOffsets_errCode resp) = Some e' \<and> isRetriable e'))
        \<and> (\<forall>rt \<in> set (ofr_Topics resp). \<forall>rp \<in> set (oft_Partitions rt). ofp_ErrorCode rp = 0)"
  then have ok: "\<forall>rt \<in> set (ofr_Topics resp). \<forall>rp \<in> set (oft_Partitions rt). ofp_ErrorCode rp = 0"
    by simp
  from a have tol: "\<not> (case errorForCode (fetchOffsets_errCode resp) of
                        None \<Rightarrow> False | Some e \<Rightarrow> \<not> isRetriable e)"
    by auto
  let ?offs = "fold (\<lambda>rt. AList.update (oft_Topic rt)
                    (fold (\<lambda>rp. AList.update (ofp_Partition rp)
                             (fetchOffsets_offset resetOffset (ofr_Version resp) rp))
                       (oft_Partitions rt) []))
              (ofr_Topics resp) []"
  have r: "fetchOffsets errorForCode isRetriable resetOffset g newAssigned (Inr resp) assigned
             = (if assigned then None else Some (OtherError ''stale group''),
                [RequestOffsetFetch (fetchOffsets_request g newAssigned),
                 MaybeAssignPartitions ?offs
                   (if cooperative g then assignWithoutInvalidating else assignInvalidateAll)]
                @ (if assigned then [ResetAndLoadOffsets] else []))"
    using tol by (simp add: fetchOffsets_def Let_def fetchOffsets_topics_ok [OF ok])
  have l: "\<forall>t p. lookup2 ?offs t p =
                 (case find (\<lambda>rt. oft_Topic rt = t) (rev (ofr_Topics resp)) of
                    None \<Rightarrow> None
                  | Some rt \<Rightarrow>
                      (case find (\<lambda>rp. ofp_Partition rp = p) (rev (oft_Partitions rt)) of
                         None \<Rightarrow> None
                       | Some rp \<Rightarrow>
                           Some (if ofp_Offset rp = - 1 then resetOffset
                                 else \<lparr>request = ofp_Offset rp,
                                       epoch = (if 5 \<le> sint (ofr_Version resp)
                                                then ofp_LeaderEpoch rp else - 1)\<rparr>)))"
    by (simp add: lookup2_decoded fetchOffsets_offset_eq)
  from r l show "\<exists>offs.
           fetchOffsets errorForCode isRetriable resetOffset g newAssigned (Inr resp) assigned
             = (if assigned then None else Some (OtherError ''stale group''),
                [RequestOffsetFetch (fetchOffsets_request g newAssigned),
                 MaybeAssignPartitions offs
                   (if cooperative g then assignWithoutInvalidating else assignInvalidateAll)]
                @ (if assigned then [ResetAndLoadOffsets] else []))
           \<and> (\<forall>t p. lookup2 offs t p =
                 (case find (\<lambda>rt. oft_Topic rt = t) (rev (ofr_Topics resp)) of
                    None \<Rightarrow> None
                  | Some rt \<Rightarrow>
                      (case find (\<lambda>rp. ofp_Partition rp = p) (rev (oft_Partitions rt)) of
                         None \<Rightarrow> None
                       | Some rp \<Rightarrow>
                           Some (if ofp_Offset rp = - 1 then resetOffset
                                 else \<lparr>request = ofp_Offset rp,
                                       epoch = (if 5 \<le> sint (ofr_Version resp)
                                                then ofp_LeaderEpoch rp else - 1)\<rparr>))))"
    by blast
qed

theorem fetchOffsets_decodes_response_witness:
  "sint (ofr_Version ex_fetched_v1) < 2
   \<and> fetchOffsets_errCode ex_fetched_v1 = 3
   \<and> ex_errorForCode 3 = Some (KafkaError 3) \<and> \<not> ex_isRetriable (KafkaError 3)
   \<and> fetchOffsets ex_errorForCode ex_isRetriable ex_resetOffset ex_group [(''t'', [0, 1])]
         (Inr ex_fetched_v1) True
       = (Some (KafkaError 3), [RequestOffsetFetch (fetchOffsets_request ex_group [(''t'', [0, 1])])])
   \<and> 2 \<le> sint (ofr_Version ex_fetched)
   \<and> fetchOffsets_errCode ex_fetched = 14
   \<and> ex_errorForCode 14 = Some (KafkaError 14) \<and> ex_isRetriable (KafkaError 14)
   \<and> (\<exists>offs.
         fetchOffsets ex_errorForCode ex_isRetriable ex_resetOffset ex_group [(''t'', [0, 1])]
           (Inr ex_fetched) True
         = (None, [RequestOffsetFetch (fetchOffsets_request ex_group [(''t'', [0, 1])]),
                   MaybeAssignPartitions offs assignWithoutInvalidating, ResetAndLoadOffsets])
         \<and> lookup2 offs ''t'' 0 = Some ex_resetOffset
         \<and> lookup2 offs ''t'' 1 = Some \<lparr>request = 42, epoch = 3\<rparr>)
   \<and> ex_errorForCode (fetchOffsets_errCode ex_fetched_bad) = Some (KafkaError 14)
   \<and> fetchOffsets ex_errorForCode ex_isRetriable ex_resetOffset ex_group [(''t'', [0, 1])]
         (Inr ex_fetched_bad) True
       = (Some (KafkaError 3), [RequestOffsetFetch (fetchOffsets_request ex_group [(''t'', [0, 1])])])"
proof -
  note A = fetchOffsets_decodes_response
    [where resp = ex_fetched_v1 and firstTopic = "hd (ofr_Topics ex_fetched_v1)" and moreTopics = "[]"
       and firstPart = "hd (oft_Partitions (hd (ofr_Topics ex_fetched_v1)))" and moreParts = "[]"
       and errorForCode = ex_errorForCode and e = "KafkaError 3"
       and isRetriable = ex_isRetriable and resetOffset = ex_resetOffset and g = ex_group
       and newAssigned = "[(''t'', [0, 1])]" and assigned = True]
  note B = fetchOffsets_decodes_response
    [where resp = ex_fetched and errorForCode = ex_errorForCode
       and isRetriable = ex_isRetriable and resetOffset = ex_resetOffset and g = ex_group
       and newAssigned = "[(''t'', [0, 1])]" and assigned = True]
  have v1: "sint (ofr_Version ex_fetched_v1) < 2" by (simp add: ex_fetched_v1_def)
  have a1: "sint (ofr_Version ex_fetched_v1) < 2
        \<and> ofr_Topics ex_fetched_v1 = hd (ofr_Topics ex_fetched_v1) # []
        \<and> oft_Partitions (hd (ofr_Topics ex_fetched_v1))
            = hd (oft_Partitions (hd (ofr_Topics ex_fetched_v1))) # []"
    by (simp add: ex_fetched_v1_def)
  have c1: "fetchOffsets_errCode ex_fetched_v1 = 3"
    using A [THEN conjunct1, THEN mp, OF a1] by (simp add: ex_fetched_v1_def)
  have e1: "ex_errorForCode 3 = Some (KafkaError 3)" "\<not> ex_isRetriable (KafkaError 3)"
    by (simp_all add: ex_errorForCode_def ex_isRetriable_def)
  have r1: "fetchOffsets ex_errorForCode ex_isRetriable ex_resetOffset ex_group [(''t'', [0, 1])]
         (Inr ex_fetched_v1) True
       = (Some (KafkaError 3), [RequestOffsetFetch (fetchOffsets_request ex_group [(''t'', [0, 1])])])"
    using A [THEN conjunct2, THEN conjunct2, THEN conjunct1] c1 e1 by simp
  have v5: "2 \<le> sint (ofr_Version ex_fetched)" by (simp add: ex_fetched_def)
  have c5: "fetchOffsets_errCode ex_fetched = 14"
    using B [THEN conjunct2, THEN conjunct1, THEN mp, OF v5] by (simp add: ex_fetched_def)
  have e5: "ex_errorForCode 14 = Some (KafkaError 14)" "ex_isRetriable (KafkaError 14)"
    by (simp_all add: ex_errorForCode_def ex_isRetriable_def)
  have h5: "(ex_errorForCode (fetchOffsets_errCode ex_fetched) = None
         \<or> (\<exists>e'. ex_errorForCode (fetchOffsets_errCode ex_fetched) = Some e' \<and> ex_isRetriable e'))
        \<and> (\<forall>rt \<in> set (ofr_Topics ex_fetched). \<forall>rp \<in> set (oft_Partitions rt). ofp_ErrorCode rp = 0)"
    using c5 e5 by (simp add: ex_fetched_def)
  from B [THEN conjunct2, THEN conjunct2, THEN conjunct2, THEN conjunct2, THEN mp, OF h5]
  obtain offs where
    r5: "fetchOffsets ex_errorForCode ex_isRetriable ex_resetOffset ex_group [(''t'', [0, 1])]
           (Inr ex_fetched) True
         = (if True then None else Some (OtherError ''stale group''),
            [RequestOffsetFetch (fetchOffsets_request ex_group [(''t'', [0, 1])]),
             MaybeAssignPartitions offs
               (if cooperative ex_group then assignWithoutInvalidating else assignInvalidateAll)]
            @ (if True then [ResetAndLoadOffsets] else []))"
    and l5: "\<forall>t p. lookup2 offs t p =
                 (case find (\<lambda>rt. oft_Topic rt = t) (rev (ofr_Topics ex_fetched)) of
                    None \<Rightarrow> None
                  | Some rt \<Rightarrow>
                      (case find (\<lambda>rp. ofp_Partition rp = p) (rev (oft_Partitions rt)) of
                         None \<Rightarrow> None
                       | Some rp \<Rightarrow>
                           Some (if ofp_Offset rp = - 1 then ex_resetOffset
                                 else \<lparr>request = ofp_Offset rp,
                                       epoch = (if 5 \<le> sint (ofr_Version ex_fetched)
                                                then ofp_LeaderEpoch rp else - 1)\<rparr>)))"
    by blast
  have r5': "fetchOffsets ex_errorForCode ex_isRetriable ex_resetOffset ex_group [(''t'', [0, 1])]
           (Inr ex_fetched) True
         = (None, [RequestOffsetFetch (fetchOffsets_request ex_group [(''t'', [0, 1])]),
                   MaybeAssignPartitions offs assignWithoutInvalidating, ResetAndLoadOffsets])"
    using r5 by (simp add: ex_group_def)
  have p0: "lookup2 offs ''t'' 0 = Some ex_resetOffset"
    using l5 [THEN spec, THEN spec, of "''t''" 0] by (simp add: ex_fetched_def)
  have p1: "lookup2 offs ''t'' 1 = Some \<lparr>request = 42, epoch = 3\<rparr>"
    using l5 [THEN spec, THEN spec, of "''t''" 1] by (simp add: ex_fetched_def)
  note C = fetchOffsets_decodes_response
    [where resp = ex_fetched_bad and errorForCode = ex_errorForCode
       and isRetriable = ex_isRetriable and resetOffset = ex_resetOffset and g = ex_group
       and newAssigned = "[(''t'', [0, 1])]" and assigned = True]
  have cb: "ex_errorForCode (fetchOffsets_errCode ex_fetched_bad) = Some (KafkaError 14)"
    by (simp add: fetchOffsets_errCode_def ex_fetched_bad_def ex_errorForCode_def)
  have hb: "\<exists>rt \<in> set (ofr_Topics ex_fetched_bad). \<exists>rp \<in> set (oft_Partitions rt).
              ofp_ErrorCode rp \<noteq> 0"
    by (simp add: ex_fetched_bad_def)
  from C [THEN conjunct2, THEN conjunct2, THEN conjunct2, THEN conjunct1, THEN mp, OF hb,
          THEN conjunct2]
  obtain bad where
    fb: "find (\<lambda>rp. ofp_ErrorCode rp \<noteq> 0)
           (concat (map oft_Partitions (ofr_Topics ex_fetched_bad))) = Some bad"
    and rb: "ex_errorForCode (fetchOffsets_errCode ex_fetched_bad) = None
              \<or> (\<exists>e'. ex_errorForCode (fetchOffsets_errCode ex_fetched_bad) = Some e'
                       \<and> ex_isRetriable e')
             \<longrightarrow> fetchOffsets ex_errorForCode ex_isRetriable ex_resetOffset ex_group
                    [(''t'', [0, 1])] (Inr ex_fetched_bad) True
                 = (ex_errorForCode (ofp_ErrorCode bad),
                    [RequestOffsetFetch (fetchOffsets_request ex_group [(''t'', [0, 1])])])"
    by blast
  from fb have bc: "ofp_ErrorCode bad = 3" by (auto simp: ex_fetched_bad_def)
  have rb': "fetchOffsets ex_errorForCode ex_isRetriable ex_resetOffset ex_group
                    [(''t'', [0, 1])] (Inr ex_fetched_bad) True
       = (Some (KafkaError 3), [RequestOffsetFetch (fetchOffsets_request ex_group [(''t'', [0, 1])])])"
    using rb cb e5 e1 bc by simp
  show ?thesis using v1 c1 e1 r1 v5 c5 e5 r5' p0 p1 cb rb' by blast
qed

subsection \<open>findNewAssignments\<close>














end
